theory Spec2Isabelle
  imports Complex_Main
begin

section \<open>Values of the runtime\<close>

text \<open>
  The handlers of \<^verbatim>\<open>backend/src/index.ts\<close> read \<^verbatim>\<open>req.body\<close>, which
  \<^verbatim>\<open>express.json()\<close> produced with \<^verbatim>\<open>JSON.parse\<close> and which has the
  static type \<^verbatim>\<open>any\<close>: a field of the body can hold any JSON value, or be absent
  (\<^verbatim>\<open>undefined\<close> after the destructuring).

  A number is the double that \<^verbatim>\<open>JSON.parse\<close> produced: its exact rational value,
  or an infinity (a literal beyond the double range). \<^verbatim>\<open>NaN\<close> is not JSON, and the
  two zeros are one value here (they are equal for \<^verbatim>\<open>Set\<close>, both are falsy and both
  print as \<^verbatim>\<open>0\<close>). Of a string only emptiness, equality and concatenation are used,
  so it is the list of its characters.
\<close>

datatype jsnumber = Finite rat | PosInfinity | NegInfinity

datatype jsvalue =
    JUndefined
  | JNull
  | JBool bool
  | JNum jsnumber
  | JStr string
  | JArr "jsvalue list"
  | JObj "(string \<times> jsvalue) list"

text \<open>
  \<^verbatim>\<open>!v\<close> is true exactly for the falsy values: \<^verbatim>\<open>undefined\<close>, \<^verbatim>\<open>null\<close>,
  \<^verbatim>\<open>false\<close>, zero and the empty string. Arrays and objects are truthy, empty or not.
\<close>

fun truthy :: "jsvalue \<Rightarrow> bool" where
  "truthy JUndefined = False"
| "truthy JNull = False"
| "truthy (JBool b) = b"
| "truthy (JNum n) = (n \<noteq> Finite 0)"
| "truthy (JStr s) = (s \<noteq> [])"
| "truthy (JArr xs) = True"
| "truthy (JObj ps) = True"

text \<open>
  Reading a property of the parsed body: the association list holds the own properties
  of the object (their keys are distinct after \<^verbatim>\<open>JSON.parse\<close>); a key that is not
  there reads as \<^verbatim>\<open>undefined\<close>, since \<^verbatim>\<open>Object.prototype\<close> has no
  \<^verbatim>\<open>tagId\<close>, \<^verbatim>\<open>source\<close> or \<^verbatim>\<open>type\<close>. A body that is a JSON array has none
  of the three keys and is the empty list here. The handler is modelled on a request whose
  body was parsed: what \<^verbatim>\<open>req.body\<close> is for a request without a JSON body (an empty
  object or \<^verbatim>\<open>undefined\<close>) depends on the version of Express, which the sources do
  not fix.
\<close>

definition get_field :: "(string \<times> jsvalue) list \<Rightarrow> string \<Rightarrow> jsvalue" where
  "get_field body k = (case map_of body k of None \<Rightarrow> JUndefined | Some v \<Rightarrow> v)"

text \<open>
  What the model takes from the JavaScript runtime, as parameters.
  \<^item> \<open>numToString\<close>: the decimal form of a double (floating-point arithmetic).
  \<^item> \<open>extraDepth\<close> and \<open>joinDepth\<close>: how deep \<^verbatim>\<open>JSON.stringify\<close> and
    \<^verbatim>\<open>Array.prototype.join\<close> recurse into nested arrays and objects before the stack
    is exhausted and they throw \<^verbatim>\<open>RangeError: Maximum call stack size exceeded\<close>.
    \<^verbatim>\<open>JSON.parse\<close> has no such limit, so a body within the size limit of the parser
    can hold a value nested deeper than \<^verbatim>\<open>JSON.stringify\<close> can write.
  Every answer of this server has two levels of its own (the list and its events, the
  statistics and their tables), and the runtime serialises those: \<open>extraDepth\<close> is the
  number of further levels, inside a field of an event of the list, that
  \<^verbatim>\<open>JSON.stringify\<close> can enter. \<open>joinDepth\<close> is the number of levels of arrays
  inside an array that \<^verbatim>\<open>join\<close> can enter.
\<close>

record runtime =
  numToString :: "jsnumber \<Rightarrow> string"
  extraDepth :: nat
  joinDepth :: nat

text \<open>
  \<open>fits d v\<close>: \<^verbatim>\<open>JSON.stringify\<close> can write \<open>v\<close> when it can enter \<open>d\<close> more levels.
  A primitive needs none; an array or an object needs one for itself, and its elements
  must fit in the rest.
\<close>

fun fits :: "nat \<Rightarrow> jsvalue \<Rightarrow> bool" where
  "fits 0 (JArr xs) = False"
| "fits (Suc d) (JArr xs) = (\<forall>x \<in> set xs. fits d x)"
| "fits 0 (JObj ps) = False"
| "fits (Suc d) (JObj ps) = (\<forall>(k, x) \<in> set ps. fits d x)"
| "fits d v = True"

section \<open>The store\<close>

text \<open>
  \<^verbatim>\<open>type TagEvent = { id: number; tagId: string; source: string; type: string; createdAt: string }\<close>.
  The three middle fields are declared \<^verbatim>\<open>string\<close>, but they are filled from
  \<^verbatim>\<open>req.body\<close> unchecked, so at run time they hold whatever truthy value was posted.
  The field \<^verbatim>\<open>id\<close> is \<open>id_ev\<close> here (\<open>id\<close> is the identity function of HOL).
\<close>

record TagEvent =
  id_ev :: nat
  tagId :: jsvalue
  source :: jsvalue
  type :: jsvalue
  createdAt :: string

text \<open>
  \<^verbatim>\<open>let events: TagEvent[] = []; let nextId = 1;\<close>

  The counter and the counts are natural numbers here. In the runtime they are doubles,
  exact below \<open>2 ^ 53\<close>, and an array holds fewer than \<open>2 ^ 32\<close> elements: the model
  describes the server below these bounds, which lie beyond the memory of the process
  (nothing is ever removed from \<^verbatim>\<open>events\<close>).
\<close>

record store =
  events :: "TagEvent list"
  nextId :: nat

definition init_store :: store where
  "init_store = \<lparr>events = [], nextId = 1\<rparr>"

section \<open>Statistics\<close>

text \<open>
  \<^verbatim>\<open>const eventsByType: Record<string, number> = {}\<close> is an ordinary object used as
  a dictionary. Its own properties are a map from keys to cells; a cell is what
  \<^verbatim>\<open>(x || 0) + 1\<close> can produce: a number or a string.
\<close>

datatype cell = Num nat | Str string

type_synonym table = "string \<rightharpoonup> cell"

text \<open>
  The object is created by \<^verbatim>\<open>{}\<close>, so its prototype is \<^verbatim>\<open>Object.prototype\<close>,
  and \<^verbatim>\<open>eventsByType[k]\<close> reads an inherited property when the object has no own
  property \<open>k\<close>. These are the properties of \<^verbatim>\<open>Object.prototype\<close> in Node
  (\<^verbatim>\<open>Object.getOwnPropertyNames(Object.prototype)\<close>): eleven functions, each paired
  with the name of the function it holds, and the accessor \<^verbatim>\<open>__proto__\<close>.
\<close>

definition object_prototype_functions :: "(string \<times> string) list" where
  "object_prototype_functions =
     [(''constructor'', ''Object''),
      (''__defineGetter__'', ''__defineGetter__''),
      (''__defineSetter__'', ''__defineSetter__''),
      (''hasOwnProperty'', ''hasOwnProperty''),
      (''__lookupGetter__'', ''__lookupGetter__''),
      (''__lookupSetter__'', ''__lookupSetter__''),
      (''isPrototypeOf'', ''isPrototypeOf''),
      (''propertyIsEnumerable'', ''propertyIsEnumerable''),
      (''toString'', ''toString''),
      (''valueOf'', ''valueOf''),
      (''toLocaleString'', ''toLocaleString'')]"

datatype getval = Undefined | Own cell | NativeFunction string | ObjectPrototype

text \<open>\<^verbatim>\<open>table[k]\<close> as an expression: the own property, else the inherited one.\<close>

definition Get :: "table \<Rightarrow> string \<Rightarrow> getval" where
  "Get t k =
     (case t k of
        Some c \<Rightarrow> Own c
      | None \<Rightarrow>
          if k = ''__proto__'' then ObjectPrototype
          else (case map_of object_prototype_functions k of
                  Some f \<Rightarrow> NativeFunction f
                | None \<Rightarrow> Undefined))"

text \<open>
  \<^verbatim>\<open>(v || 0) + 1\<close>. \<^verbatim>\<open>undefined\<close>, \<^verbatim>\<open>0\<close> and \<^verbatim>\<open>""\<close> are falsy, so the
  sum is \<open>0 + 1\<close>. A truthy number is incremented. Everything else is truthy and not a
  number, so \<^verbatim>\<open>+\<close> concatenates its string form with \<^verbatim>\<open>"1"\<close>: a string stays
  itself, a built-in function prints as \<^verbatim>\<open>function f() { [native code] }\<close>, and
  \<^verbatim>\<open>Object.prototype\<close> prints as \<^verbatim>\<open>[object Object]\<close>.
\<close>

fun or_zero_plus_one :: "getval \<Rightarrow> cell" where
  "or_zero_plus_one Undefined = Num 1"
| "or_zero_plus_one (Own (Num n)) = (if n = 0 then Num 1 else Num (n + 1))"
| "or_zero_plus_one (Own (Str s)) = (if s = [] then Num 1 else Str (s @ ''1''))"
| "or_zero_plus_one (NativeFunction f) = Str (''function '' @ f @ ''() { [native code] }'' @ ''1'')"
| "or_zero_plus_one ObjectPrototype = Str (''[object Object]'' @ ''1'')"

text \<open>
  \<^verbatim>\<open>table[k] = c\<close>. The inherited functions are writable data properties, so the
  assignment creates an own property that shadows them. \<^verbatim>\<open>__proto__\<close> is an accessor:
  the assignment calls its setter, which ignores a value that is neither an object nor
  \<^verbatim>\<open>null\<close>, and a cell is a number or a string.
\<close>

definition Set_prop :: "table \<Rightarrow> string \<Rightarrow> cell \<Rightarrow> table" where
  "Set_prop t k c = (if k = ''__proto__'' then t else t(k \<mapsto> c))"

text \<open>\<^verbatim>\<open>table[k] = (table[k] || 0) + 1\<close>\<close>

definition bump :: "table \<Rightarrow> string \<Rightarrow> table" where
  "bump t k = Set_prop t k (or_zero_plus_one (Get t k))"

text \<open>
  A property key that is not a string is converted with \<^verbatim>\<open>ToString\<close> (through
  \<^verbatim>\<open>ToPrimitive\<close> with hint string for arrays and objects).
  \<^item> A number prints as \<open>numToString\<close> says.
  \<^item> An array is joined with commas, \<^verbatim>\<open>null\<close> and \<^verbatim>\<open>undefined\<close> elements giving
    the empty string. An element that is an array is joined in turn: \<open>d\<close> is the number
    of levels of arrays that can still be entered, and \<^verbatim>\<open>RangeError\<close> is thrown when
    an array is met and none is left.
  \<^item> An object from \<^verbatim>\<open>JSON.parse\<close> inherits \<^verbatim>\<open>Object.prototype.toString\<close> and prints
    as \<^verbatim>\<open>[object Object]\<close>, unless it has an own property \<^verbatim>\<open>toString\<close>: that is
    a JSON value and not callable, \<^verbatim>\<open>valueOf\<close> (own: not callable; inherited: returns
    the object) gives no primitive either, and the conversion throws a \<^verbatim>\<open>TypeError\<close>.
  Elements are converted from left to right and the first error is the one thrown.
\<close>

datatype error = TypeError | RangeError

fun ToString :: "runtime \<Rightarrow> nat \<Rightarrow> jsvalue \<Rightarrow> error + string"
  and join :: "runtime \<Rightarrow> nat \<Rightarrow> jsvalue list \<Rightarrow> error + string"
where
  "ToString rt d JUndefined = Inr ''undefined''"
| "ToString rt d JNull = Inr ''null''"
| "ToString rt d (JBool b) = Inr (if b then ''true'' else ''false'')"
| "ToString rt d (JNum n) = Inr (numToString rt n)"
| "ToString rt d (JStr s) = Inr s"
| "ToString rt 0 (JArr xs) = Inl RangeError"
| "ToString rt (Suc d) (JArr xs) = join rt d xs"
| "ToString rt d (JObj ps) =
     (if ''toString'' \<in> set (map fst ps) then Inl TypeError else Inr ''[object Object]'')"
| "join rt d [] = Inr []"
| "join rt d (x # xs) =
     (case (if x = JNull \<or> x = JUndefined then Inr [] else ToString rt d x) of
        Inl e \<Rightarrow> Inl e
      | Inr s \<Rightarrow>
          if xs = [] then Inr s
          else (case join rt d xs of
                  Inl e \<Rightarrow> Inl e
                | Inr r \<Rightarrow> Inr (s @ '','' @ r)))"

text \<open>
  The key of \<^verbatim>\<open>table[v]\<close>: the array \<open>v\<close> itself can be entered, and \<open>joinDepth\<close>
  levels inside it.
\<close>

definition ToPropertyKey :: "runtime \<Rightarrow> jsvalue \<Rightarrow> error + string" where
  "ToPropertyKey rt v = ToString rt (Suc (joinDepth rt)) v"

text \<open>
  The loop of the stats handler:
  \<^verbatim>\<open>
  for (const e of events) {
    eventsByType[e.type] = (eventsByType[e.type] || 0) + 1;
    eventsBySource[e.source] = (eventsBySource[e.source] || 0) + 1;
  }
  \<close>
  An error of a key conversion leaves the loop and the handler.
\<close>

fun count_events ::
  "runtime \<Rightarrow> TagEvent list \<Rightarrow> table \<times> table \<Rightarrow> error + table \<times> table"
where
  "count_events rt [] acc = Inr acc"
| "count_events rt (e # es) (eventsByType, eventsBySource) =
     (case ToPropertyKey rt (type e) of
        Inl err \<Rightarrow> Inl err
      | Inr kt \<Rightarrow>
          (case ToPropertyKey rt (source e) of
             Inl err \<Rightarrow> Inl err
           | Inr ks \<Rightarrow>
               count_events rt es (bump eventsByType kt, bump eventsBySource ks)))"

text \<open>
  \<^verbatim>\<open>new Set(events.map((e) => e.tagId)).size\<close>. A \<^verbatim>\<open>Set\<close> compares primitives by
  value and arrays and objects by identity. Every stored \<^verbatim>\<open>tagId\<close> that is an array
  or an object was parsed from a request of its own, so it is identical to no other: each
  counts once, and the primitives count once per distinct value.
\<close>

fun is_object :: "jsvalue \<Rightarrow> bool" where
  "is_object (JArr xs) = True"
| "is_object (JObj ps) = True"
| "is_object v = False"

definition Set_size :: "jsvalue list \<Rightarrow> nat" where
  "Set_size vs =
     length (remdups (filter (\<lambda>v. \<not> is_object v) vs)) + length (filter is_object vs)"

record stats =
  totalEvents :: nat
  uniqueTags :: nat
  eventsByType :: table
  eventsBySource :: table

section \<open>The three handlers\<close>

text \<open>
  What a handler sends: the status and the JSON value of the body. \<open>ErrorPage\<close> is the
  page of Express's default error handler, sent with status 500 when a handler throws.
\<close>

datatype payload =
    Message string
  | EventJson TagEvent
  | EventsJson "TagEvent list"
  | StatsJson stats
  | ErrorPage

datatype response = Response (status: nat) (payload: payload)

text \<open>
  \<^verbatim>\<open>res.json(p)\<close> writes \<open>p\<close> with \<^verbatim>\<open>JSON.stringify\<close>, which throws when a field
  of an event is nested too deep. In an event sent alone the fields are one level
  higher than in the list of events. A message and the statistics (numbers and strings
  in two tables) are always written. A text too long for a string of the runtime is,
  like the bounds of memory, beyond the model.
\<close>

fun stringifies :: "runtime \<Rightarrow> payload \<Rightarrow> bool" where
  "stringifies rt (EventJson e) =
     (fits (Suc (extraDepth rt)) (tagId e) \<and> fits (Suc (extraDepth rt)) (source e) \<and>
      fits (Suc (extraDepth rt)) (type e))"
| "stringifies rt (EventsJson es) =
     (\<forall>e \<in> set es.
        fits (extraDepth rt) (tagId e) \<and> fits (extraDepth rt) (source e) \<and>
        fits (extraDepth rt) (type e))"
| "stringifies rt p = True"

text \<open>
  The value that the text written by \<^verbatim>\<open>JSON.stringify\<close> denotes. An infinite number
  is written as \<^verbatim>\<open>null\<close>; \<^verbatim>\<open>undefined\<close> is written as \<^verbatim>\<open>null\<close> in an array
  and left out of an object; every other value is written so that it reads back as
  itself.
\<close>

fun wire :: "jsvalue \<Rightarrow> jsvalue"
  and wire_elements :: "jsvalue list \<Rightarrow> jsvalue list"
  and wire_properties :: "(string \<times> jsvalue) list \<Rightarrow> (string \<times> jsvalue) list"
where
  "wire JUndefined = JUndefined"
| "wire JNull = JNull"
| "wire (JBool b) = JBool b"
| "wire (JNum (Finite q)) = JNum (Finite q)"
| "wire (JNum PosInfinity) = JNull"
| "wire (JNum NegInfinity) = JNull"
| "wire (JStr s) = JStr s"
| "wire (JArr xs) = JArr (wire_elements xs)"
| "wire (JObj ps) = JObj (wire_properties ps)"
| "wire_elements [] = []"
| "wire_elements (x # xs) = (if x = JUndefined then JNull else wire x) # wire_elements xs"
| "wire_properties [] = []"
| "wire_properties ((k, x) # ps) =
     (if x = JUndefined then wire_properties ps else (k, wire x) # wire_properties ps)"

text \<open>
  An event as it is written: \<^verbatim>\<open>id\<close> is a positive integer and \<^verbatim>\<open>createdAt\<close> a
  string, and both read back as themselves.
\<close>

definition wire_event :: "TagEvent \<Rightarrow> TagEvent" where
  "wire_event e =
     \<lparr>id_ev = id_ev e, tagId = wire (tagId e), source = wire (source e), type = wire (type e),
      createdAt = createdAt e\<rparr>"

fun wire_payload :: "payload \<Rightarrow> payload" where
  "wire_payload (EventJson e) = EventJson (wire_event e)"
| "wire_payload (EventsJson es) = EventsJson (map wire_event es)"
| "wire_payload p = p"

text \<open>
  \<^verbatim>\<open>res.status(c).json(p)\<close> as the last action of a handler: the answer is \<open>c\<close> with
  \<open>p\<close> as it is written, or, when \<^verbatim>\<open>JSON.stringify\<close> throws, the 500 of the default
  error handler.
\<close>

definition res_json :: "runtime \<Rightarrow> nat \<Rightarrow> payload \<Rightarrow> response" where
  "res_json rt c p =
     (if stringifies rt p then Response c (wire_payload p) else Response 500 ErrorPage)"

text \<open>
  \<^verbatim>\<open>POST /api/events\<close>. \<open>now\<close> is \<^verbatim>\<open>new Date().toISOString()\<close> at the time of
  the call. \<^verbatim>\<open>nextId++\<close> yields the old value and increments the counter;
  \<^verbatim>\<open>events.unshift(event)\<close> puts the event in front. Both have happened when
  \<^verbatim>\<open>res.status(201).json(event)\<close> runs: if it throws, the answer is 500 and the event
  stays in the store.
\<close>

definition post_events ::
  "runtime \<Rightarrow> (string \<times> jsvalue) list \<Rightarrow> string \<Rightarrow> store \<Rightarrow> response \<times> store" where
  "post_events rt body now st =
     (let tagId = get_field body ''tagId'';
          source = get_field body ''source'';
          type = get_field body ''type''
      in if \<not> truthy tagId \<or> \<not> truthy source \<or> \<not> truthy type
         then (res_json rt 400 (Message ''tagId, source and type are required''), st)
         else
           (let event = \<lparr>id_ev = nextId st, tagId = tagId, source = source, type = type,
                          createdAt = now\<rparr>;
                st' = \<lparr>events = event # events st, nextId = nextId st + 1\<rparr>
            in (res_json rt 201 (EventJson event), st')))"

text \<open>\<^verbatim>\<open>GET /api/events\<close>: \<^verbatim>\<open>res.json(events)\<close>.\<close>

definition get_events :: "runtime \<Rightarrow> store \<Rightarrow> response \<times> store" where
  "get_events rt st = (res_json rt 200 (EventsJson (events st)), st)"

text \<open>\<^verbatim>\<open>GET /api/stats\<close>\<close>

definition get_stats :: "runtime \<Rightarrow> store \<Rightarrow> response \<times> store" where
  "get_stats rt st =
     (let totalEvents = length (events st);
          uniqueTags = Set_size (map tagId (events st))
      in case count_events rt (events st) (Map.empty, Map.empty) of
           Inl err \<Rightarrow> (Response 500 ErrorPage, st)
         | Inr (byType, bySource) \<Rightarrow>
             (res_json rt 200 (StatsJson \<lparr>totalEvents = totalEvents, uniqueTags = uniqueTags,
                eventsByType = byType, eventsBySource = bySource\<rparr>), st))"

text \<open>A request to the server, and a run of the server over a sequence of requests.\<close>

datatype request =
    PostEvents "(string \<times> jsvalue) list" string
  | GetEvents
  | GetStats

fun handle :: "runtime \<Rightarrow> request \<Rightarrow> store \<Rightarrow> response \<times> store" where
  "handle rt (PostEvents body now) st = post_events rt body now st"
| "handle rt GetEvents st = get_events rt st"
| "handle rt GetStats st = get_stats rt st"

fun run :: "runtime \<Rightarrow> request list \<Rightarrow> store \<Rightarrow> response list \<times> store" where
  "run rt [] st = ([], st)"
| "run rt (r # rs) st =
     (let (resp, st') = handle rt r st;
          (resps, st'') = run rt rs st'
      in (resp # resps, st''))"

section \<open>Notions used in the statements\<close>

text \<open>The body passes the check \<^verbatim>\<open>!tagId || !source || !type\<close>.\<close>

definition valid_body :: "(string \<times> jsvalue) list \<Rightarrow> bool" where
  "valid_body body =
     (truthy (get_field body ''tagId'') \<and> truthy (get_field body ''source'') \<and>
      truthy (get_field body ''type''))"

fun valid_post :: "request \<Rightarrow> bool" where
  "valid_post (PostEvents body now) = valid_body body"
| "valid_post GetEvents = False"
| "valid_post GetStats = False"

text \<open>The event of a response that reports a creation (status 201), if it is one.\<close>

fun created_of :: "response \<Rightarrow> TagEvent option" where
  "created_of (Response c (EventJson e)) = (if c = 201 then Some e else None)"
| "created_of (Response c p) = None"

fun created :: "response list \<Rightarrow> TagEvent list" where
  "created [] = []"
| "created (r # rs) = (case created_of r of Some e \<Rightarrow> e # created rs | None \<Rightarrow> created rs)"

text \<open>A field is missing when it is absent from the body or the empty string.\<close>

definition missing :: "jsvalue \<Rightarrow> bool" where
  "missing v = (v = JUndefined \<or> v = JStr [])"

text \<open>
  The frequency table of a list of keys, as the specification describes the two tables of
  the statistics: a key has an entry exactly when it occurs, and the entry is the number
  of its occurrences.
\<close>

definition spec_frequency_table :: "string list \<Rightarrow> table" where
  "spec_frequency_table ks k = (if k \<in> set ks then Some (Num (count_list ks k)) else None)"

text \<open>A key that names a property of \<^verbatim>\<open>Object.prototype\<close>.\<close>

definition reserved_key :: "string \<Rightarrow> bool" where
  "reserved_key k = (k = ''__proto__'' \<or> map_of object_prototype_functions k \<noteq> None)"

text \<open>
  The creation that a request asks for can be answered: if the three fields of its body
  are valid, they are within reach of \<^verbatim>\<open>JSON.stringify\<close> when the event is sent
  alone. This is so for every body whose three fields are primitives, text among them.
  Of a request that asks for no creation, or for one that is rejected, it says nothing.
\<close>

fun answerable :: "runtime \<Rightarrow> request \<Rightarrow> bool" where
  "answerable rt (PostEvents body now) =
     (valid_body body \<longrightarrow>
      fits (Suc (extraDepth rt)) (get_field body ''tagId'') \<and>
      fits (Suc (extraDepth rt)) (get_field body ''source'') \<and>
      fits (Suc (extraDepth rt)) (get_field body ''type''))"
| "answerable rt GetEvents = True"
| "answerable rt GetStats = True"

text \<open>
  The JSON value \<^verbatim>\<open>[[...[]...]]\<close> with \<open>n\<close> pairs of brackets around \<^verbatim>\<open>[]\<close>; its
  text has \<open>2 * n + 2\<close> characters.
\<close>

fun nested :: "nat \<Rightarrow> jsvalue" where
  "nested 0 = JArr []"
| "nested (Suc n) = JArr [nested n]"

text \<open>
  A value without an infinite number and without \<^verbatim>\<open>undefined\<close>: it is written so
  that it reads back as itself. Text is such a value.
\<close>

fun plain :: "jsvalue \<Rightarrow> bool" where
  "plain JUndefined = False"
| "plain (JNum PosInfinity) = False"
| "plain (JNum NegInfinity) = False"
| "plain (JArr xs) = (\<forall>x \<in> set xs. plain x)"
| "plain (JObj ps) = (\<forall>(k, x) \<in> set ps. plain x)"
| "plain v = True"

text \<open>
  A runtime for the examples: \<^verbatim>\<open>JSON.stringify\<close> and \<^verbatim>\<open>join\<close> enter 10000 levels.
  The examples hold no number, so the printing of numbers plays no part in them.
\<close>

definition example_runtime :: runtime where
  "example_runtime = \<lparr>numToString = (\<lambda>n. ''0''), extraDepth = 10000, joinDepth = 10000\<rparr>"

section \<open>The handlers, one request at a time\<close>

lemma post_events_invalid:
  "\<not> valid_body body \<Longrightarrow>
   post_events rt body now st =
     (Response 400 (Message ''tagId, source and type are required''), st)"
  by (auto simp: post_events_def valid_body_def Let_def res_json_def)

lemma post_events_valid:
  "valid_body body \<Longrightarrow>
   post_events rt body now st =
     (res_json rt 201 (EventJson \<lparr>id_ev = nextId st, tagId = get_field body ''tagId'',
        source = get_field body ''source'', type = get_field body ''type'', createdAt = now\<rparr>),
      \<lparr>events = \<lparr>id_ev = nextId st, tagId = get_field body ''tagId'',
        source = get_field body ''source'', type = get_field body ''type'', createdAt = now\<rparr>
        # events st, nextId = nextId st + 1\<rparr>)"
  by (auto simp: post_events_def valid_body_def Let_def)

lemma created_of_res_json:
  "created_of (res_json rt 201 (EventJson e)) =
     (if stringifies rt (EventJson e) then Some (wire_event e) else None)"
  by (simp add: res_json_def)

lemma id_ev_wire_event [simp]: "id_ev (wire_event e) = id_ev e"
  by (simp add: wire_event_def)

lemma get_stats_store: "snd (get_stats rt st) = st"
  by (simp add: get_stats_def Let_def split: sum.splits prod.splits)

lemma get_stats_created: "created_of (fst (get_stats rt st)) = None"
  by (simp add: get_stats_def Let_def res_json_def split: sum.splits prod.splits)

lemma handle_not_valid:
  "\<not> valid_post r \<Longrightarrow> snd (handle rt r st) = st \<and> created_of (fst (handle rt r st)) = None"
  by (cases r)
    (simp_all add: post_events_invalid get_events_def res_json_def get_stats_store
       get_stats_created)

lemma handle_valid:
  "valid_post r \<Longrightarrow>
   \<exists>e. id_ev e = nextId st \<and>
       snd (handle rt r st) = \<lparr>events = e # events st, nextId = nextId st + 1\<rparr> \<and>
       fst (handle rt r st) = res_json rt 201 (EventJson e) \<and>
       (answerable rt r \<longrightarrow> stringifies rt (EventJson e))"
  by (cases r) (simp_all add: post_events_valid)

lemma run_Cons:
  "run rt (r # rs) st =
     (fst (handle rt r st) # fst (run rt rs (snd (handle rt r st))),
      snd (run rt rs (snd (handle rt r st))))"
  by (simp add: split_beta Let_def)

declare run.simps(2) [simp del]

text \<open>
  The store after a run: the events \<open>new\<close> of the valid creations, in the order of their
  creation, in front of the old ones. The answers report those of them that could be
  written, as they were written.
\<close>

lemma run_shape:
  "\<exists>new.
     events (snd (run rt reqs st)) = rev new @ events st \<and>
     nextId (snd (run rt reqs st)) = nextId st + length new \<and>
     map id_ev new = [nextId st ..< nextId st + length new] \<and>
     length new = length (filter valid_post reqs) \<and>
     created (fst (run rt reqs st)) =
       map wire_event (filter (\<lambda>e. stringifies rt (EventJson e)) new) \<and>
     ((\<forall>r \<in> set reqs. answerable rt r) \<longrightarrow>
        (\<forall>e \<in> set new. stringifies rt (EventJson e)) \<and>
        map (\<lambda>a. created_of a \<noteq> None) (fst (run rt reqs st)) = map valid_post reqs)"
proof (induction reqs arbitrary: st)
  case Nil
  show ?case by simp
next
  case (Cons r rs)
  let ?st' = "snd (handle rt r st)"
  let ?P = "\<lambda>e. stringifies rt (EventJson e)"
  from Cons.IH [of ?st'] obtain new where new:
    "events (snd (run rt rs ?st')) = rev new @ events ?st'"
    "nextId (snd (run rt rs ?st')) = nextId ?st' + length new"
    "map id_ev new = [nextId ?st' ..< nextId ?st' + length new]"
    "length new = length (filter valid_post rs)"
    "created (fst (run rt rs ?st')) = map wire_event (filter ?P new)"
    "(\<forall>r \<in> set rs. answerable rt r) \<longrightarrow>
        (\<forall>e \<in> set new. ?P e) \<and>
        map (\<lambda>a. created_of a \<noteq> None) (fst (run rt rs ?st')) = map valid_post rs"
    by blast
  show ?case
  proof (cases "valid_post r")
    case False
    from handle_not_valid [OF False, of rt st] have
      same: "?st' = st" and none: "created_of (fst (handle rt r st)) = None" by simp_all
    have "events (snd (run rt (r # rs) st)) = rev new @ events st \<and>
     nextId (snd (run rt (r # rs) st)) = nextId st + length new \<and>
     map id_ev new = [nextId st ..< nextId st + length new] \<and>
     length new = length (filter valid_post (r # rs)) \<and>
     created (fst (run rt (r # rs) st)) = map wire_event (filter ?P new) \<and>
     ((\<forall>r \<in> set (r # rs). answerable rt r) \<longrightarrow>
        (\<forall>e \<in> set new. ?P e) \<and>
        map (\<lambda>a. created_of a \<noteq> None) (fst (run rt (r # rs) st)) = map valid_post (r # rs))"
      using new False none
      by (simp only: run_Cons fst_conv snd_conv created.simps same) simp
    then show ?thesis by blast
  next
    case True
    from handle_valid [OF True, of st rt] obtain e where e:
      "id_ev e = nextId st"
      "?st' = \<lparr>events = e # events st, nextId = nextId st + 1\<rparr>"
      "fst (handle rt r st) = res_json rt 201 (EventJson e)"
      "answerable rt r \<longrightarrow> ?P e" by blast
    have cr: "created (fst (run rt (r # rs) st)) = map wire_event (filter ?P (e # new))"
      by (simp only: run_Cons fst_conv created.simps e(3) created_of_res_json new(5)) simp
    have "events (snd (run rt (r # rs) st)) = rev (e # new) @ events st \<and>
     nextId (snd (run rt (r # rs) st)) = nextId st + length (e # new) \<and>
     map id_ev (e # new) = [nextId st ..< nextId st + length (e # new)] \<and>
     length (e # new) = length (filter valid_post (r # rs)) \<and>
     created (fst (run rt (r # rs) st)) = map wire_event (filter ?P (e # new)) \<and>
     ((\<forall>r \<in> set (r # rs). answerable rt r) \<longrightarrow>
        (\<forall>e \<in> set (e # new). ?P e) \<and>
        map (\<lambda>a. created_of a \<noteq> None) (fst (run rt (r # rs) st)) = map valid_post (r # rs))"
    proof (intro conjI)
      show "events (snd (run rt (r # rs) st)) = rev (e # new) @ events st"
        using new(1) e(2) by (simp only: run_Cons snd_conv) simp
      show "nextId (snd (run rt (r # rs) st)) = nextId st + length (e # new)"
        using new(2) e(2) by (simp only: run_Cons snd_conv) simp
      show "map id_ev (e # new) = [nextId st ..< nextId st + length (e # new)]"
        using new(3) e(1,2) by (simp add: upt_rec)
      show "length (e # new) = length (filter valid_post (r # rs))"
        using new(4) True by simp
      show "created (fst (run rt (r # rs) st)) = map wire_event (filter ?P (e # new))"
        by (rule cr)
      show "(\<forall>r \<in> set (r # rs). answerable rt r) \<longrightarrow>
        (\<forall>e \<in> set (e # new). ?P e) \<and>
        map (\<lambda>a. created_of a \<noteq> None) (fst (run rt (r # rs) st)) = map valid_post (r # rs)"
      proof
        assume a: "\<forall>r \<in> set (r # rs). answerable rt r"
        with e(4) have s: "?P e" by simp
        from a new(6) have rest: "\<forall>e \<in> set new. ?P e"
          "map (\<lambda>a. created_of a \<noteq> None) (fst (run rt rs ?st')) = map valid_post rs" by simp_all
        show "(\<forall>e \<in> set (e # new). ?P e) \<and>
          map (\<lambda>a. created_of a \<noteq> None) (fst (run rt (r # rs) st)) = map valid_post (r # rs)"
          using rest s True by (simp add: run_Cons e(3) created_of_res_json)
      qed
    qed
    then show ?thesis by blast
  qed
qed

section \<open>Runs from the empty store\<close>

lemma falsy_values:
  "\<not> truthy v \<longleftrightarrow> v \<in> {JUndefined, JNull, JBool False, JNum (Finite 0), JStr []}"
  by (cases v) auto

lemma fits_primitive: "\<not> is_object v \<Longrightarrow> fits d v"
  by (cases v) simp_all

lemma fits_nested [simp]: "fits d (nested n) \<longleftrightarrow> n < d"
proof (induction n arbitrary: d)
  case 0
  show ?case by (cases d) simp_all
next
  case (Suc n)
  show ?case by (cases d) (simp_all add: Suc.IH)
qed

lemma truthy_nested [simp]: "truthy (nested n)"
  by (cases n) simp_all

lemma rev_upt_nth: "i < N \<Longrightarrow> rev [1 ..< Suc N] ! i = N - i"
  by (simp add: rev_nth del: upt_Suc)

lemma sorted_wrt_rev_upt: "sorted_wrt (>) (rev [m ..< n])"
proof -
  have "sorted_wrt (\<lambda>x y. y < x) (rev [m ..< n]) = sorted_wrt (<) [m ..< n]"
    by (simp only: sorted_wrt_rev)
  then show ?thesis by (simp only: sorted_wrt_upt)
qed

lemma run_init:
  "events (snd (run rt reqs init_store)) = rev new \<and>
   map id_ev new = [1 ..< Suc (length new)] \<and>
   nextId (snd (run rt reqs init_store)) = Suc (length new) \<and>
   length new = length (filter valid_post reqs) \<and>
   created (fst (run rt reqs init_store)) =
     map wire_event (filter (\<lambda>e. stringifies rt (EventJson e)) new) \<and>
   ((\<forall>r \<in> set reqs. answerable rt r) \<longrightarrow>
      created (fst (run rt reqs init_store)) = map wire_event new \<and>
      map (\<lambda>a. created_of a \<noteq> None) (fst (run rt reqs init_store)) = map valid_post reqs)"
  if "new = rev (events (snd (run rt reqs init_store)))"
proof -
  from run_shape [of rt reqs init_store] obtain new' where new':
    "events (snd (run rt reqs init_store)) = rev new' @ events init_store"
    "nextId (snd (run rt reqs init_store)) = nextId init_store + length new'"
    "map id_ev new' = [nextId init_store ..< nextId init_store + length new']"
    "length new' = length (filter valid_post reqs)"
    "created (fst (run rt reqs init_store)) =
       map wire_event (filter (\<lambda>e. stringifies rt (EventJson e)) new')"
    "(\<forall>r \<in> set reqs. answerable rt r) \<longrightarrow>
        (\<forall>e \<in> set new'. stringifies rt (EventJson e)) \<and>
        map (\<lambda>a. created_of a \<noteq> None) (fst (run rt reqs init_store)) = map valid_post reqs"
    by blast
  from new'(1) that have eq: "new' = new" by (simp add: init_store_def)
  have all: "created (fst (run rt reqs init_store)) = map wire_event new"
    if "\<forall>e \<in> set new'. stringifies rt (EventJson e)"
  proof -
    from that have "filter (\<lambda>e. stringifies rt (EventJson e)) new' = new'" by simp
    with new'(5) eq show ?thesis by simp
  qed
  from new' all show ?thesis unfolding eq by (simp add: init_store_def)
qed

lemma created_ids_increasing:
  "sorted_wrt (<) (map id_ev (created (fst (run rt reqs init_store))))"
proof -
  let ?new = "rev (events (snd (run rt reqs init_store)))"
  let ?P = "\<lambda>e. stringifies rt (EventJson e)"
  from run_init [of ?new rt reqs, OF refl] have
    ids: "map id_ev ?new = [1 ..< Suc (length ?new)]" and
    cs: "created (fst (run rt reqs init_store)) = map wire_event (filter ?P ?new)" by blast+
  have "sorted_wrt (<) (map id_ev ?new)" by (simp only: ids sorted_wrt_upt)
  then have "sorted_wrt (\<lambda>a b. id_ev a < id_ev b) ?new" by (simp only: sorted_wrt_map)
  then have "sorted_wrt (\<lambda>a b. id_ev a < id_ev b) (filter ?P ?new)" by (rule sorted_wrt_filter)
  then have "sorted_wrt (<) (map id_ev (filter ?P ?new))" by (simp only: sorted_wrt_map)
  moreover have "map id_ev (map wire_event (filter ?P ?new)) = map id_ev (filter ?P ?new)"
    by simp
  ultimately show ?thesis by (simp only: cs)
qed

lemma reachable_ids:
  "map id_ev (events (snd (run rt reqs init_store))) =
     rev [1 ..< Suc (length (events (snd (run rt reqs init_store))))] \<and>
   nextId (snd (run rt reqs init_store)) = length (events (snd (run rt reqs init_store))) + 1 \<and>
   length (events (snd (run rt reqs init_store))) = length (filter valid_post reqs)"
proof -
  let ?st = "snd (run rt reqs init_store)"
  let ?new = "rev (events ?st)"
  from run_init [of ?new rt reqs] have
    ids: "map id_ev ?new = [1 ..< Suc (length ?new)]" and
    nx: "nextId ?st = Suc (length ?new)" and
    len: "length ?new = length (filter valid_post reqs)" by simp_all
  have "map id_ev (events ?st) = rev (map id_ev ?new)" by (simp add: rev_map)
  with ids have "map id_ev (events ?st) = rev [1 ..< Suc (length ?new)]" by (simp only:)
  with nx len show ?thesis by simp
qed

lemma stored_nth:
  assumes "i < length (events (snd (run rt reqs init_store)))"
  shows "id_ev (events (snd (run rt reqs init_store)) ! i) =
           length (events (snd (run rt reqs init_store))) - i"
proof -
  let ?st = "snd (run rt reqs init_store)"
  from reachable_ids [of rt reqs] have
    ids: "map id_ev (events ?st) = rev [1 ..< Suc (length (events ?st))]" by simp
  have "id_ev (events ?st ! i) = map id_ev (events ?st) ! i" using assms by simp
  also have "\<dots> = length (events ?st) - i" using assms by (simp only: ids rev_upt_nth)
  finally show ?thesis .
qed

text \<open>An event that an answer reports is in the store, at the place its id gives.\<close>

lemma created_stored:
  assumes "e \<in> set (created (fst (run rt reqs init_store)))"
  shows "0 < id_ev e \<and> id_ev e \<le> length (events (snd (run rt reqs init_store))) \<and>
         wire_event (events (snd (run rt reqs init_store)) !
           (length (events (snd (run rt reqs init_store))) - id_ev e)) = e"
proof -
  let ?st = "snd (run rt reqs init_store)"
  let ?N = "length (events ?st)"
  from run_init [of "rev (events ?st)" rt reqs, OF refl] assms
  obtain s where s: "s \<in> set (events ?st)" "e = wire_event s" by auto
  then obtain i where i: "i < ?N" "events ?st ! i = s" by (auto simp: in_set_conv_nth)
  from stored_nth [OF i(1)] i(2) s(2) have id: "id_ev e = ?N - i" by simp
  with i(1) have "0 < id_ev e" "id_ev e \<le> ?N" "?N - id_ev e = i" by simp_all
  with i(2) s(2) show ?thesis by simp
qed

text \<open>A plain value is written so that it reads back as itself.\<close>

lemma wire_plain: "plain v \<Longrightarrow> wire v = v"
  and wire_elements_plain: "\<forall>x \<in> set xs. plain x \<Longrightarrow> wire_elements xs = xs"
  and wire_properties_plain: "\<forall>(k, x) \<in> set ps. plain x \<Longrightarrow> wire_properties ps = ps"
  by (induction v and xs and ps rule: wire_wire_elements_wire_properties.induct) auto

lemma wire_event_plain:
  "plain (tagId e) \<Longrightarrow> plain (source e) \<Longrightarrow> plain (type e) \<Longrightarrow> wire_event e = e"
  by (simp add: wire_event_def wire_plain)

lemma run_no_create:
  "\<forall>r \<in> set reqs. \<not> valid_post r \<Longrightarrow>
   run rt reqs st = (map (\<lambda>r. fst (handle rt r st)) reqs, st)"
proof (induction reqs)
  case Nil
  show ?case by simp
next
  case (Cons r rs)
  then have r: "\<not> valid_post r" and rs: "\<forall>r \<in> set rs. \<not> valid_post r" by simp_all
  from handle_not_valid [OF r, of rt st] have same: "snd (handle rt r st) = st" by simp
  from Cons.IH [OF rs] same show ?case
    by (simp only: run_Cons) simp
qed

text \<open>
  Whatever the limit of the runtime is, a creation with a field nested beyond it is
  answered 500 after its event is stored and its id is used.
\<close>

lemma deep_create_unanswered:
  assumes "extraDepth rt < n" and "get_field body ''tagId'' = nested n"
    and "truthy (get_field body ''source'')" and "truthy (get_field body ''type'')"
  shows "post_events rt body now st =
           (Response 500 ErrorPage,
            \<lparr>events = \<lparr>id_ev = nextId st, tagId = nested n, source = get_field body ''source'',
               type = get_field body ''type'', createdAt = now\<rparr> # events st,
             nextId = nextId st + 1\<rparr>)"
proof -
  from assms have "valid_body body" by (simp add: valid_body_def)
  from post_events_valid [OF this, of rt now st] assms(1,2)
  show ?thesis by (simp add: res_json_def)
qed

text \<open>Evaluation of the examples.\<close>

lemma fits_array: "fits d (JArr xs) \<longleftrightarrow> 0 < d \<and> (\<forall>x \<in> set xs. fits (d - 1) x)"
  by (cases d) simp_all

lemma fits_object: "fits d (JObj ps) \<longleftrightarrow> 0 < d \<and> (\<forall>(k, x) \<in> set ps. fits (d - 1) x)"
  by (cases d) simp_all

lemmas eval_defs = Let_def post_events_def get_events_def get_field_def init_store_def
  res_json_def example_runtime_def valid_body_def wire_event_def run_Cons

section \<open>Identifiers\<close>

text \<open>
  C1, as the code has it. Take any sequence of requests served from the empty store, and
  the events that its answers with status 201 returned, in order. Their ids increase
  strictly, so no id is returned twice, and all are positive. When every creation of the
  sequence can be answered (its three fields are within the depth that
  \<^verbatim>\<open>JSON.stringify\<close> writes, as every text is), a request is answered by a creation
  exactly when its three fields are valid, the first id returned is 1, and each id
  returned is one more than the one returned before it.
\<close>

theorem append_ids_increasing:
  "let rs = fst (run rt reqs init_store); cs = created rs
   in sorted_wrt (<) (map id_ev cs) \<and>
      distinct (map id_ev cs) \<and>
      (\<forall>e \<in> set cs. 0 < id_ev e) \<and>
      ((\<forall>r \<in> set reqs. answerable rt r) \<longrightarrow>
         map (\<lambda>a. created_of a \<noteq> None) rs = map valid_post reqs \<and>
         map id_ev cs = [1 ..< Suc (length cs)] \<and>
         (cs \<noteq> [] \<longrightarrow> id_ev (cs ! 0) = 1) \<and>
         (\<forall>k. Suc k < length cs \<longrightarrow> id_ev (cs ! Suc k) = id_ev (cs ! k) + 1))"
proof -
  let ?rs = "fst (run rt reqs init_store)"
  let ?cs = "created ?rs"
  let ?new = "rev (events (snd (run rt reqs init_store)))"
  note shape = run_init [of ?new rt reqs, OF refl]
  have inc: "sorted_wrt (<) (map id_ev ?cs)" by (rule created_ids_increasing)
  then have dist: "distinct (map id_ev ?cs)"
    by (simp add: strict_sorted_iff)
  have pos: "\<forall>e \<in> set ?cs. 0 < id_ev e"
    using created_stored [of _ rt reqs] by blast
  have seq: "map (\<lambda>a. created_of a \<noteq> None) ?rs = map valid_post reqs \<and>
         map id_ev ?cs = [1 ..< Suc (length ?cs)] \<and>
         (?cs \<noteq> [] \<longrightarrow> id_ev (?cs ! 0) = 1) \<and>
         (\<forall>k. Suc k < length ?cs \<longrightarrow> id_ev (?cs ! Suc k) = id_ev (?cs ! k) + 1)"
    if a: "\<forall>r \<in> set reqs. answerable rt r"
  proof -
    from shape a have cs: "?cs = map wire_event ?new" and
      ok: "map (\<lambda>a. created_of a \<noteq> None) ?rs = map valid_post reqs" by blast+
    from shape have "map id_ev ?new = [1 ..< Suc (length ?new)]" by blast
    moreover from cs have "map id_ev ?cs = map id_ev ?new" "length ?cs = length ?new"
      by simp_all
    ultimately have ids: "map id_ev ?cs = [1 ..< Suc (length ?cs)]" by (simp only:)
    have nth: "id_ev (?cs ! k) = Suc k" if "k < length ?cs" for k
    proof -
      have "id_ev (?cs ! k) = map id_ev ?cs ! k" using that by simp
      also have "\<dots> = [1 ..< Suc (length ?cs)] ! k" by (simp only: ids)
      also have "\<dots> = Suc k" using that by (simp del: upt_Suc)
      finally show ?thesis .
    qed
    have first: "?cs \<noteq> [] \<longrightarrow> id_ev (?cs ! 0) = 1" using nth [of 0] by simp
    have step: "\<forall>k. Suc k < length ?cs \<longrightarrow> id_ev (?cs ! Suc k) = id_ev (?cs ! k) + 1"
      using nth by simp
    from ok ids first step show ?thesis by blast
  qed
  show ?thesis
    unfolding Let_def using inc dist pos seq by blast
qed

text \<open>Two creations with a rejected one and a read in between get the ids 1 and 2.\<close>

theorem append_ids_increasing_witness:
  "answerable example_runtime
     (PostEvents [(''tagId'', JStr ''A''), (''source'', JStr ''gate''), (''type'', JStr ''alert'')] ''t1'') \<and>
   answerable example_runtime (PostEvents [(''tagId'', JStr ''A''), (''source'', JStr ''gate'')] ''t2'') \<and>
   answerable example_runtime GetEvents \<and>
   answerable example_runtime
     (PostEvents [(''tagId'', JStr ''B''), (''source'', JStr ''dock''), (''type'', JStr ''status'')] ''t3'') \<and>
   map id_ev (created (fst (run example_runtime
     [PostEvents [(''tagId'', JStr ''A''), (''source'', JStr ''gate''), (''type'', JStr ''alert'')] ''t1'',
      PostEvents [(''tagId'', JStr ''A''), (''source'', JStr ''gate'')] ''t2'',
      GetEvents,
      PostEvents [(''tagId'', JStr ''B''), (''source'', JStr ''dock''), (''type'', JStr ''status'')] ''t3'']
     init_store))) = [1, 2]"
  using append_ids_increasing [of example_runtime
     "[PostEvents [(''tagId'', JStr ''A''), (''source'', JStr ''gate''), (''type'', JStr ''alert'')] ''t1'',
      PostEvents [(''tagId'', JStr ''A''), (''source'', JStr ''gate'')] ''t2'',
      GetEvents,
      PostEvents [(''tagId'', JStr ''B''), (''source'', JStr ''dock''), (''type'', JStr ''status'')] ''t3'']"]
  by (simp add: eval_defs)

text \<open>
  C1 as stated fails: the first successful creation can return an id other than 1. With
  a body whose \<^verbatim>\<open>tagId\<close> is 40000 arrays nested in one another (a text of 80 kB,
  within the 100 kB that \<^verbatim>\<open>express.json()\<close> accepts) on a runtime whose
  \<^verbatim>\<open>JSON.stringify\<close> enters 10000 levels,
  the first creation passes the validation, uses id 1 and is answered 500; the next
  creation is the first that succeeds, and it returns id 2.
\<close>

theorem first_answered_create_has_id_two:
  "valid_post
     (PostEvents [(''tagId'', nested 40000), (''source'', JStr ''gate''), (''type'', JStr ''alert'')] ''t1'') \<and>
   fst (run example_runtime
     [PostEvents [(''tagId'', nested 40000), (''source'', JStr ''gate''), (''type'', JStr ''alert'')] ''t1'',
      PostEvents [(''tagId'', JStr ''B''), (''source'', JStr ''dock''), (''type'', JStr ''status'')] ''t2'']
     init_store) =
   [Response 500 ErrorPage,
    Response 201 (EventJson \<lparr>id_ev = 2, tagId = JStr ''B'', source = JStr ''dock'',
       type = JStr ''status'', createdAt = ''t2''\<rparr>)]"
  by (simp add: eval_defs)

text \<open>
  C9. In every store that a sequence of requests reaches from the empty store, with
  \<open>N\<close> events: the ids, from the front, are \<open>N\<close> down to 1, so the event at index \<open>i\<close>
  has id \<open>N - i\<close> and the ids present are exactly 1 to \<open>N\<close>; the counter is \<open>N + 1\<close>.
  The sequence of requests is arbitrary: rejected creations and reads are among them and
  leave no gap.
\<close>

theorem reachable_ids_consecutive:
  "let st = snd (run rt reqs init_store); N = length (events st)
   in map id_ev (events st) = rev [1 ..< Suc N] \<and>
      (\<forall>i < N. id_ev (events st ! i) = N - i) \<and>
      id_ev ` set (events st) = {1 .. N} \<and>
      nextId st = N + 1"
proof -
  let ?st = "snd (run rt reqs init_store)"
  let ?N = "length (events ?st)"
  from reachable_ids [of rt reqs] have
    ids: "map id_ev (events ?st) = rev [1 ..< Suc ?N]" and nx: "nextId ?st = ?N + 1"
    by simp_all
  have nth: "\<forall>i < ?N. id_ev (events ?st ! i) = ?N - i"
    using stored_nth [of _ rt reqs] by blast
  have "id_ev ` set (events ?st) = set (map id_ev (events ?st))" by simp
  also have "\<dots> = set (rev [1 ..< Suc ?N])" by (simp only: ids)
  also have "\<dots> = {1 .. ?N}" by (simp del: upt_Suc add: atLeastLessThanSuc_atLeastAtMost)
  finally have img: "id_ev ` set (events ?st) = {1 .. ?N}" .
  show ?thesis
    unfolding Let_def using ids nth img nx by blast
qed

text \<open>A rejected creation between two accepted ones: the ids are 2 and 1, the counter is 3.\<close>

theorem reachable_ids_consecutive_witness:
  "map id_ev (events (snd (run example_runtime
     [PostEvents [(''tagId'', JStr ''A''), (''source'', JStr ''gate''), (''type'', JStr ''alert'')] ''t1'',
      PostEvents [(''source'', JStr ''gate''), (''type'', JStr ''alert'')] ''t2'',
      PostEvents [(''tagId'', JStr ''B''), (''source'', JStr ''gate''), (''type'', JStr ''status'')] ''t3'']
     init_store))) = [2, 1] \<and>
   nextId (snd (run example_runtime
     [PostEvents [(''tagId'', JStr ''A''), (''source'', JStr ''gate''), (''type'', JStr ''alert'')] ''t1'',
      PostEvents [(''source'', JStr ''gate''), (''type'', JStr ''alert'')] ''t2'',
      PostEvents [(''tagId'', JStr ''B''), (''source'', JStr ''gate''), (''type'', JStr ''status'')] ''t3'']
     init_store)) = 3"
  using reachable_ids_consecutive [of example_runtime
     "[PostEvents [(''tagId'', JStr ''A''), (''source'', JStr ''gate''), (''type'', JStr ''alert'')] ''t1'',
       PostEvents [(''source'', JStr ''gate''), (''type'', JStr ''alert'')] ''t2'',
       PostEvents [(''tagId'', JStr ''B''), (''source'', JStr ''gate''), (''type'', JStr ''status'')] ''t3'']"]
  by (simp add: eval_defs)

section \<open>Validation\<close>

text \<open>
  C2. When one of \<^verbatim>\<open>tagId\<close>, \<^verbatim>\<open>source\<close>, \<^verbatim>\<open>type\<close> is absent or the empty
  string, the create handler answers 400 with a message and returns the store as it
  was: the sequence of events and the counter are both unchanged.
\<close>

theorem create_missing_field_rejected:
  "missing (get_field body ''tagId'') \<or> missing (get_field body ''source'') \<or>
   missing (get_field body ''type'') \<Longrightarrow>
   post_events rt body now st =
     (Response 400 (Message ''tagId, source and type are required''), st)"
proof -
  assume m: "missing (get_field body ''tagId'') \<or> missing (get_field body ''source'') \<or>
   missing (get_field body ''type'')"
  have falsy: "\<not> truthy v" if "missing v" for v
    using that by (auto simp: missing_def)
  from m falsy have "\<not> valid_body body"
    unfolding valid_body_def by blast
  then show ?thesis by (rule post_events_invalid)
qed

text \<open>A body without \<^verbatim>\<open>source\<close> and with an empty \<^verbatim>\<open>type\<close>, on a store whose counter is 7.\<close>

theorem create_missing_field_rejected_witness:
  "missing (get_field [(''tagId'', JStr ''A''), (''type'', JStr '''')] ''source'') \<and>
   missing (get_field [(''tagId'', JStr ''A''), (''type'', JStr '''')] ''type'') \<and>
   post_events example_runtime [(''tagId'', JStr ''A''), (''type'', JStr '''')] ''t''
       \<lparr>events = [], nextId = 7\<rparr> =
     (Response 400 (Message ''tagId, source and type are required''), \<lparr>events = [], nextId = 7\<rparr>)"
proof -
  have h: "missing (get_field [(''tagId'', JStr ''A''), (''type'', JStr '''')] ''source'')"
    by (simp add: missing_def get_field_def)
  have h': "missing (get_field [(''tagId'', JStr ''A''), (''type'', JStr '''')] ''type'')"
    by (simp add: missing_def get_field_def)
  from h have "missing (get_field [(''tagId'', JStr ''A''), (''type'', JStr '''')] ''tagId'') \<or>
     missing (get_field [(''tagId'', JStr ''A''), (''type'', JStr '''')] ''source'') \<or>
     missing (get_field [(''tagId'', JStr ''A''), (''type'', JStr '''')] ''type'')" by blast
  from create_missing_field_rejected [OF this] h h' show ?thesis by blast
qed

text \<open>
  C8, as the code has it. The create handler answers 400 exactly when one of the three
  fields is falsy, and the falsy values are \<^verbatim>\<open>undefined\<close> (an absent field),
  \<^verbatim>\<open>null\<close>, \<^verbatim>\<open>false\<close>, \<^verbatim>\<open>0\<close> and \<^verbatim>\<open>""\<close>. A string of one blank is truthy.
  When all three are truthy, an event that holds the three values as they were sent is
  put in the store. The answer is then 201 with the event as \<^verbatim>\<open>JSON.stringify\<close> writes
  it when the three values are within the depth that it writes, and 500 otherwise. What
  is written reads back as the value itself, unless an infinite number is in it.
\<close>

theorem create_rejects_iff_falsy:
  "(status (fst (post_events rt body now st)) = 400 \<longleftrightarrow>
      \<not> truthy (get_field body ''tagId'') \<or> \<not> truthy (get_field body ''source'') \<or>
      \<not> truthy (get_field body ''type'')) \<and>
   (\<not> truthy v \<longleftrightarrow> v \<in> {JUndefined, JNull, JBool False, JNum (Finite 0), JStr []}) \<and>
   (map_of body k = None \<longrightarrow> \<not> truthy (get_field body k)) \<and>
   truthy (JStr '' '') \<and>
   (truthy (get_field body ''tagId'') \<and> truthy (get_field body ''source'') \<and>
    truthy (get_field body ''type'') \<longrightarrow>
      snd (post_events rt body now st) =
        \<lparr>events = \<lparr>id_ev = nextId st, tagId = get_field body ''tagId'',
           source = get_field body ''source'', type = get_field body ''type'',
           createdAt = now\<rparr> # events st, nextId = nextId st + 1\<rparr> \<and>
      (answerable rt (PostEvents body now) \<longrightarrow>
         fst (post_events rt body now st) =
           Response 201 (EventJson \<lparr>id_ev = nextId st, tagId = wire (get_field body ''tagId''),
             source = wire (get_field body ''source''), type = wire (get_field body ''type''),
             createdAt = now\<rparr>)) \<and>
      (\<not> answerable rt (PostEvents body now) \<longrightarrow>
         fst (post_events rt body now st) = Response 500 ErrorPage)) \<and>
   (plain v \<longrightarrow> wire v = v)"
proof (intro conjI)
  show "status (fst (post_events rt body now st)) = 400 \<longleftrightarrow>
      \<not> truthy (get_field body ''tagId'') \<or> \<not> truthy (get_field body ''source'') \<or>
      \<not> truthy (get_field body ''type'')"
  proof (cases "valid_body body")
    case True
    then show ?thesis
      by (simp add: post_events_valid res_json_def) (simp add: valid_body_def)
  next
    case False
    then show ?thesis by (simp add: post_events_invalid) (simp add: valid_body_def)
  qed
  show "\<not> truthy v \<longleftrightarrow> v \<in> {JUndefined, JNull, JBool False, JNum (Finite 0), JStr []}"
    by (rule falsy_values)
  show "map_of body k = None \<longrightarrow> \<not> truthy (get_field body k)"
    by (simp add: get_field_def)
  show "truthy (JStr '' '')" by simp
  show "truthy (get_field body ''tagId'') \<and> truthy (get_field body ''source'') \<and>
    truthy (get_field body ''type'') \<longrightarrow>
      snd (post_events rt body now st) =
        \<lparr>events = \<lparr>id_ev = nextId st, tagId = get_field body ''tagId'',
           source = get_field body ''source'', type = get_field body ''type'',
           createdAt = now\<rparr> # events st, nextId = nextId st + 1\<rparr> \<and>
      (answerable rt (PostEvents body now) \<longrightarrow>
         fst (post_events rt body now st) =
           Response 201 (EventJson \<lparr>id_ev = nextId st, tagId = wire (get_field body ''tagId''),
             source = wire (get_field body ''source''), type = wire (get_field body ''type''),
             createdAt = now\<rparr>)) \<and>
      (\<not> answerable rt (PostEvents body now) \<longrightarrow>
         fst (post_events rt body now st) = Response 500 ErrorPage)"
    using post_events_valid [of body rt now st]
    by (simp add: valid_body_def res_json_def wire_event_def)
  show "plain v \<longrightarrow> wire v = v"
    by (simp add: wire_plain)
qed

text \<open>A blank string, a number and an empty array are accepted, stored and returned as they are.\<close>

theorem create_rejects_iff_falsy_witness:
  "truthy (get_field [(''tagId'', JStr '' ''), (''source'', JNum (Finite 7)), (''type'', JArr [])] ''tagId'') \<and>
   truthy (get_field [(''tagId'', JStr '' ''), (''source'', JNum (Finite 7)), (''type'', JArr [])] ''source'') \<and>
   truthy (get_field [(''tagId'', JStr '' ''), (''source'', JNum (Finite 7)), (''type'', JArr [])] ''type'') \<and>
   answerable example_runtime
     (PostEvents [(''tagId'', JStr '' ''), (''source'', JNum (Finite 7)), (''type'', JArr [])] ''t'') \<and>
   post_events example_runtime
       [(''tagId'', JStr '' ''), (''source'', JNum (Finite 7)), (''type'', JArr [])] ''t''
       \<lparr>events = [], nextId = 1\<rparr> =
     (Response 201 (EventJson \<lparr>id_ev = 1, tagId = JStr '' '', source = JNum (Finite 7),
        type = JArr [], createdAt = ''t''\<rparr>),
      \<lparr>events = [\<lparr>id_ev = 1, tagId = JStr '' '', source = JNum (Finite 7),
        type = JArr [], createdAt = ''t''\<rparr>], nextId = 2\<rparr>)"
  using create_rejects_iff_falsy
    [of example_runtime "[(''tagId'', JStr '' ''), (''source'', JNum (Finite 7)), (''type'', JArr [])]"
        "''t''" "\<lparr>events = [], nextId = 1\<rparr>" JNull "''type''"]
  by (simp add: get_field_def example_runtime_def prod_eq_iff fits_array)

text \<open>
  C8 as stated fails: a truthy value does not always give a 201 answer. With
  a body whose \<^verbatim>\<open>tagId\<close> is 40000 arrays nested in one another (a text of 80 kB,
  within the 100 kB that \<^verbatim>\<open>express.json()\<close> accepts) on a runtime whose
  \<^verbatim>\<open>JSON.stringify\<close> enters 10000 levels,
  the three fields are truthy and the answer is 500.
\<close>

theorem truthy_fields_answered_500:
  "truthy (get_field [(''tagId'', nested 40000), (''source'', JStr ''gate''), (''type'', JStr ''alert'')] ''tagId'') \<and>
   truthy (get_field [(''tagId'', nested 40000), (''source'', JStr ''gate''), (''type'', JStr ''alert'')] ''source'') \<and>
   truthy (get_field [(''tagId'', nested 40000), (''source'', JStr ''gate''), (''type'', JStr ''alert'')] ''type'') \<and>
   fst (post_events example_runtime
     [(''tagId'', nested 40000), (''source'', JStr ''gate''), (''type'', JStr ''alert'')] ''t''
     init_store) = Response 500 ErrorPage"
  by (simp add: eval_defs)

section \<open>Listing\<close>

text \<open>
  C3, as the code has it. After a run from the empty store in which \<open>N\<close> creations had
  valid fields, the store holds exactly \<open>N\<close> events; their ids are \<open>N\<close> down to 1, so no
  id exceeds that of element 0 and the ids decrease strictly along the sequence, while
  the ids returned increase strictly in the order of creation. A creation with valid
  fields puts its event in front of the sequence. The list handler answers with the
  stored sequence, as it is written, and status 200 whenever the sequence can be written.
  \<open>N\<close> is the number of successful creations when every creation of the run could be
  answered.
\<close>

theorem store_newest_first:
  "let rs = fst (run rt reqs init_store); st = snd (run rt reqs init_store);
       N = length (filter valid_post reqs)
   in length (events st) = N \<and>
      map id_ev (events st) = rev [1 ..< Suc N] \<and>
      (\<forall>i < N. id_ev (events st ! i) \<le> id_ev (events st ! 0)) \<and>
      sorted_wrt (>) (map id_ev (events st)) \<and>
      sorted_wrt (<) (map id_ev (created rs)) \<and>
      (\<forall>body now. valid_body body \<longrightarrow>
         (\<exists>e. post_events rt body now st =
                (res_json rt 201 (EventJson e),
                 \<lparr>events = e # events st, nextId = nextId st + 1\<rparr>))) \<and>
      get_events rt st = (res_json rt 200 (EventsJson (events st)), st) \<and>
      (stringifies rt (EventsJson (events st)) \<longrightarrow>
         fst (get_events rt st) = Response 200 (EventsJson (map wire_event (events st)))) \<and>
      ((\<forall>r \<in> set reqs. answerable rt r) \<longrightarrow> length (created rs) = N)"
proof -
  let ?rs = "fst (run rt reqs init_store)"
  let ?st = "snd (run rt reqs init_store)"
  let ?N = "length (filter valid_post reqs)"
  from reachable_ids [of rt reqs] have
    len: "length (events ?st) = ?N" and ids: "map id_ev (events ?st) = rev [1 ..< Suc ?N]"
    by simp_all
  have nth: "id_ev (events ?st ! i) = ?N - i" if "i < ?N" for i
    using stored_nth [of i rt reqs] that len by simp
  have top: "\<forall>i < ?N. id_ev (events ?st ! i) \<le> id_ev (events ?st ! 0)"
  proof (intro allI impI)
    fix i assume i: "i < ?N"
    then have "0 < ?N" by arith
    from nth [OF i] nth [OF this] show "id_ev (events ?st ! i) \<le> id_ev (events ?st ! 0)" by simp
  qed
  have dec: "sorted_wrt (>) (map id_ev (events ?st))"
    by (simp only: ids sorted_wrt_rev_upt)
  note shape = run_init [of "rev (events ?st)" rt reqs, OF refl]
  have inc: "sorted_wrt (<) (map id_ev (created ?rs))" by (rule created_ids_increasing)
  have front: "\<forall>body now. valid_body body \<longrightarrow>
         (\<exists>e. post_events rt body now ?st =
                (res_json rt 201 (EventJson e),
                 \<lparr>events = e # events ?st, nextId = nextId ?st + 1\<rparr>))"
    by (simp add: post_events_valid)
  have get: "get_events rt ?st = (res_json rt 200 (EventsJson (events ?st)), ?st)"
    by (simp add: get_events_def)
  have get200: "stringifies rt (EventsJson (events ?st)) \<longrightarrow>
         fst (get_events rt ?st) = Response 200 (EventsJson (map wire_event (events ?st)))"
    by (simp add: get_events_def res_json_def)
  have all: "(\<forall>r \<in> set reqs. answerable rt r) \<longrightarrow> length (created ?rs) = ?N"
  proof
    assume "\<forall>r \<in> set reqs. answerable rt r"
    with shape have "created ?rs = map wire_event (rev (events ?st))" by blast
    with len show "length (created ?rs) = ?N" by simp
  qed
  show ?thesis
    unfolding Let_def using len ids top dec inc front get get200 all by blast
qed

text \<open>After two creations the ids read 2, 1, and a third creation gives 3, 2, 1.\<close>

theorem store_newest_first_witness:
  "valid_body [(''tagId'', JStr ''C''), (''source'', JStr ''dock''), (''type'', JStr ''alert'')] \<and>
   stringifies example_runtime (EventsJson (events (snd (run example_runtime
     [PostEvents [(''tagId'', JStr ''A''), (''source'', JStr ''gate''), (''type'', JStr ''alert'')] ''t1'',
      PostEvents [(''tagId'', JStr ''B''), (''source'', JStr ''gate''), (''type'', JStr ''status'')] ''t2'']
     init_store)))) \<and>
   map id_ev (events (snd (run example_runtime
     [PostEvents [(''tagId'', JStr ''A''), (''source'', JStr ''gate''), (''type'', JStr ''alert'')] ''t1'',
      PostEvents [(''tagId'', JStr ''B''), (''source'', JStr ''gate''), (''type'', JStr ''status'')] ''t2'']
     init_store))) = [2, 1] \<and>
   status (fst (get_events example_runtime (snd (run example_runtime
     [PostEvents [(''tagId'', JStr ''A''), (''source'', JStr ''gate''), (''type'', JStr ''alert'')] ''t1'',
      PostEvents [(''tagId'', JStr ''B''), (''source'', JStr ''gate''), (''type'', JStr ''status'')] ''t2'']
     init_store)))) = 200 \<and>
   map id_ev (events (snd (post_events example_runtime
     [(''tagId'', JStr ''C''), (''source'', JStr ''dock''), (''type'', JStr ''alert'')] ''t3''
     (snd (run example_runtime
       [PostEvents [(''tagId'', JStr ''A''), (''source'', JStr ''gate''), (''type'', JStr ''alert'')] ''t1'',
        PostEvents [(''tagId'', JStr ''B''), (''source'', JStr ''gate''), (''type'', JStr ''status'')] ''t2'']
       init_store))))) = [3, 2, 1]"
  using store_newest_first [of example_runtime
     "[PostEvents [(''tagId'', JStr ''A''), (''source'', JStr ''gate''), (''type'', JStr ''alert'')] ''t1'',
       PostEvents [(''tagId'', JStr ''B''), (''source'', JStr ''gate''), (''type'', JStr ''status'')] ''t2'']"]
  by (simp add: eval_defs)

text \<open>
  C3 as stated fails: after no successful creation the store can hold an event, and the
  list handler then returns no list. With
  a body whose \<^verbatim>\<open>tagId\<close> is 40000 arrays nested in one another (a text of 80 kB,
  within the 100 kB that \<^verbatim>\<open>express.json()\<close> accepts) on a runtime whose
  \<^verbatim>\<open>JSON.stringify\<close> enters 10000 levels,
  the creation is answered 500, its event is stored, and the list handler answers 500.
\<close>

theorem unsent_create_is_listed:
  "created (fst (run example_runtime
     [PostEvents [(''tagId'', nested 40000), (''source'', JStr ''gate''), (''type'', JStr ''alert'')] ''t1'']
     init_store)) = [] \<and>
   events (snd (run example_runtime
     [PostEvents [(''tagId'', nested 40000), (''source'', JStr ''gate''), (''type'', JStr ''alert'')] ''t1'']
     init_store)) =
     [\<lparr>id_ev = 1, tagId = nested 40000, source = JStr ''gate'', type = JStr ''alert'',
        createdAt = ''t1''\<rparr>] \<and>
   fst (get_events example_runtime (snd (run example_runtime
     [PostEvents [(''tagId'', nested 40000), (''source'', JStr ''gate''), (''type'', JStr ''alert'')] ''t1'']
     init_store))) = Response 500 ErrorPage"
  by (simp add: eval_defs)

text \<open>
  C5, as the code has it. After any run from the empty store to a store of \<open>N\<close> events,
  every event that a successful creation returned is the written form of the stored event
  at index \<open>N - id\<close>; when the list handler answers 200, the list it returns has \<open>N\<close>
  elements and the one at index \<open>N - id\<close> is the event that the creation returned, field
  for field. When every creation of the run could be answered, the list returned is the
  reverse of the events returned, so the event of the \<open>k\<close>-th successful creation (from 0)
  is at index \<open>n - 1 - k\<close> when \<open>n\<close> succeeded.
\<close>

theorem returned_event_is_stored:
  "let rs = fst (run rt reqs init_store); st = snd (run rt reqs init_store);
       cs = created rs; N = length (events st)
   in (\<forall>e \<in> set cs. 0 < id_ev e \<and> id_ev e \<le> N \<and> wire_event (events st ! (N - id_ev e)) = e) \<and>
      (\<forall>es. fst (get_events rt st) = Response 200 (EventsJson es) \<longrightarrow>
         length es = N \<and> (\<forall>e \<in> set cs. es ! (N - id_ev e) = e)) \<and>
      ((\<forall>r \<in> set reqs. answerable rt r) \<longrightarrow>
         (\<forall>es. fst (get_events rt st) = Response 200 (EventsJson es) \<longrightarrow>
            es = rev cs \<and> (\<forall>k < length cs. es ! (length cs - 1 - k) = cs ! k)))"
proof -
  let ?cs = "created (fst (run rt reqs init_store))"
  let ?st = "snd (run rt reqs init_store)"
  let ?N = "length (events ?st)"
  have stored: "\<forall>e \<in> set ?cs. 0 < id_ev e \<and> id_ev e \<le> ?N \<and>
      wire_event (events ?st ! (?N - id_ev e)) = e"
    using created_stored [of _ rt reqs] by blast
  have answer: "es = map wire_event (events ?st)"
    if "fst (get_events rt ?st) = Response 200 (EventsJson es)" for es
    using that by (simp add: get_events_def res_json_def split: if_splits)
  have listed: "\<forall>es. fst (get_events rt ?st) = Response 200 (EventsJson es) \<longrightarrow>
         length es = ?N \<and> (\<forall>e \<in> set ?cs. es ! (?N - id_ev e) = e)"
  proof (intro allI impI conjI ballI)
    fix es e
    assume "fst (get_events rt ?st) = Response 200 (EventsJson es)"
    then have es: "es = map wire_event (events ?st)" by (rule answer)
    then show "length es = ?N" by simp
    assume "e \<in> set ?cs"
    with stored have e: "0 < id_ev e" "id_ev e \<le> ?N"
      "wire_event (events ?st ! (?N - id_ev e)) = e" by blast+
    from e(1,2) have "?N - id_ev e < ?N" by arith
    with e(3) show "es ! (?N - id_ev e) = e" by (simp add: es)
  qed
  have all: "(\<forall>r \<in> set reqs. answerable rt r) \<longrightarrow>
         (\<forall>es. fst (get_events rt ?st) = Response 200 (EventsJson es) \<longrightarrow>
            es = rev ?cs \<and> (\<forall>k < length ?cs. es ! (length ?cs - 1 - k) = ?cs ! k))"
  proof (intro allI impI)
    fix es
    assume "\<forall>r \<in> set reqs. answerable rt r"
      and "fst (get_events rt ?st) = Response 200 (EventsJson es)"
    with run_init [of "rev (events ?st)" rt reqs, OF refl] answer [of es]
    have "?cs = map wire_event (rev (events ?st))" "es = map wire_event (events ?st)" by blast+
    then have ev: "es = rev ?cs" by (simp add: rev_map)
    have pos: "\<forall>k < length ?cs. es ! (length ?cs - 1 - k) = ?cs ! k"
    proof (intro allI impI)
      fix k assume k: "k < length ?cs"
      then have "rev ?cs ! (length ?cs - 1 - k) = ?cs ! (length ?cs - Suc (length ?cs - 1 - k))"
        by (intro rev_nth) simp
      also from k have "length ?cs - Suc (length ?cs - 1 - k) = k" by simp
      finally have "rev ?cs ! (length ?cs - 1 - k) = ?cs ! k" .
      with ev show "es ! (length ?cs - 1 - k) = ?cs ! k" by (simp only:)
    qed
    from ev pos show "es = rev ?cs \<and> (\<forall>k < length ?cs. es ! (length ?cs - 1 - k) = ?cs ! k)"
      by blast
  qed
  show ?thesis
    unfolding Let_def using stored listed all by blast
qed

text \<open>The event returned first is the second element of the list of two.\<close>

theorem returned_event_is_stored_witness:
  "answerable example_runtime
     (PostEvents [(''tagId'', JStr ''A''), (''source'', JStr ''gate''), (''type'', JStr ''alert'')] ''t1'') \<and>
   answerable example_runtime
     (PostEvents [(''tagId'', JStr ''B''), (''source'', JStr ''gate''), (''type'', JStr ''status'')] ''t2'') \<and>
   created (fst (run example_runtime
     [PostEvents [(''tagId'', JStr ''A''), (''source'', JStr ''gate''), (''type'', JStr ''alert'')] ''t1'',
      PostEvents [(''tagId'', JStr ''B''), (''source'', JStr ''gate''), (''type'', JStr ''status'')] ''t2'']
     init_store)) ! 0 =
     \<lparr>id_ev = 1, tagId = JStr ''A'', source = JStr ''gate'', type = JStr ''alert'', createdAt = ''t1''\<rparr> \<and>
   fst (get_events example_runtime (snd (run example_runtime
     [PostEvents [(''tagId'', JStr ''A''), (''source'', JStr ''gate''), (''type'', JStr ''alert'')] ''t1'',
      PostEvents [(''tagId'', JStr ''B''), (''source'', JStr ''gate''), (''type'', JStr ''status'')] ''t2'']
     init_store))) =
     Response 200 (EventsJson
       [\<lparr>id_ev = 2, tagId = JStr ''B'', source = JStr ''gate'', type = JStr ''status'', createdAt = ''t2''\<rparr>,
        \<lparr>id_ev = 1, tagId = JStr ''A'', source = JStr ''gate'', type = JStr ''alert'', createdAt = ''t1''\<rparr>])"
  using returned_event_is_stored [of example_runtime
     "[PostEvents [(''tagId'', JStr ''A''), (''source'', JStr ''gate''), (''type'', JStr ''alert'')] ''t1'',
       PostEvents [(''tagId'', JStr ''B''), (''source'', JStr ''gate''), (''type'', JStr ''status'')] ''t2'']"]
  by (simp add: eval_defs)

text \<open>
  C5 as stated fails: the event that the only successful creation returned is not at the
  front of the stored sequence, and the list handler returns no list. With
  a body whose \<^verbatim>\<open>tagId\<close> is 40000 arrays nested in one another (a text of 80 kB,
  within the 100 kB that \<^verbatim>\<open>express.json()\<close> accepts) on a runtime whose
  \<^verbatim>\<open>JSON.stringify\<close> enters 10000 levels,
  the second creation is answered 500, yet its event is stored in front of the first.
\<close>

theorem returned_event_not_at_its_place:
  "created (fst (run example_runtime
     [PostEvents [(''tagId'', JStr ''A''), (''source'', JStr ''gate''), (''type'', JStr ''alert'')] ''t1'',
      PostEvents [(''tagId'', nested 40000), (''source'', JStr ''gate''), (''type'', JStr ''alert'')] ''t2'']
     init_store)) =
     [\<lparr>id_ev = 1, tagId = JStr ''A'', source = JStr ''gate'', type = JStr ''alert'', createdAt = ''t1''\<rparr>] \<and>
   events (snd (run example_runtime
     [PostEvents [(''tagId'', JStr ''A''), (''source'', JStr ''gate''), (''type'', JStr ''alert'')] ''t1'',
      PostEvents [(''tagId'', nested 40000), (''source'', JStr ''gate''), (''type'', JStr ''alert'')] ''t2'']
     init_store)) ! 0 =
     \<lparr>id_ev = 2, tagId = nested 40000, source = JStr ''gate'', type = JStr ''alert'', createdAt = ''t2''\<rparr> \<and>
   fst (get_events example_runtime (snd (run example_runtime
     [PostEvents [(''tagId'', JStr ''A''), (''source'', JStr ''gate''), (''type'', JStr ''alert'')] ''t1'',
      PostEvents [(''tagId'', nested 40000), (''source'', JStr ''gate''), (''type'', JStr ''alert'')] ''t2'']
     init_store))) = Response 500 ErrorPage"
  by (simp add: eval_defs)

section \<open>Reads and the frame\<close>

text \<open>
  C6. The list handler and the stats handler return the store they were given. Called
  \<open>n\<close> times in a row, each gives \<open>n\<close> times the answer of a single call; more
  generally, in a sequence of requests without a valid creation every answer is the one
  the request gets on the initial store, and the store at the end is the initial one.
\<close>

theorem reads_idempotent:
  "get_events rt st = (res_json rt 200 (EventsJson (events st)), st) \<and>
   snd (get_stats rt st) = st \<and>
   run rt (replicate n GetEvents) st = (replicate n (fst (get_events rt st)), st) \<and>
   run rt (replicate n GetStats) st = (replicate n (fst (get_stats rt st)), st) \<and>
   ((\<forall>r \<in> set reqs. \<not> valid_post r) \<longrightarrow>
      run rt reqs st = (map (\<lambda>r. fst (handle rt r st)) reqs, st))"
proof (intro conjI)
  show "get_events rt st = (res_json rt 200 (EventsJson (events st)), st)"
    by (simp add: get_events_def)
  show "snd (get_stats rt st) = st"
    by (rule get_stats_store)
  have "\<forall>r \<in> set (replicate n GetEvents). \<not> valid_post r" by simp
  from run_no_create [OF this, of rt st]
  show "run rt (replicate n GetEvents) st = (replicate n (fst (get_events rt st)), st)"
    by (simp add: map_replicate_const)
  have "\<forall>r \<in> set (replicate n GetStats). \<not> valid_post r" by simp
  from run_no_create [OF this, of rt st]
  show "run rt (replicate n GetStats) st = (replicate n (fst (get_stats rt st)), st)"
    by (simp add: map_replicate_const)
  show "(\<forall>r \<in> set reqs. \<not> valid_post r) \<longrightarrow>
      run rt reqs st = (map (\<lambda>r. fst (handle rt r st)) reqs, st)"
    using run_no_create [of reqs rt st] by blast
qed

text \<open>Reads and a rejected creation on a store of one event.\<close>

theorem reads_idempotent_witness:
  "\<not> valid_post GetEvents \<and> \<not> valid_post GetStats \<and>
   \<not> valid_post (PostEvents [(''tagId'', JStr ''A'')] ''t'') \<and>
   run example_runtime
       [GetEvents, PostEvents [(''tagId'', JStr ''A'')] ''t'', GetStats, GetEvents, GetStats]
       \<lparr>events = [\<lparr>id_ev = 1, tagId = JStr ''A'', source = JStr ''gate'', type = JStr ''alert'',
                    createdAt = ''t1''\<rparr>], nextId = 2\<rparr> =
     (map (\<lambda>r. fst (handle example_runtime r
        \<lparr>events = [\<lparr>id_ev = 1, tagId = JStr ''A'', source = JStr ''gate'', type = JStr ''alert'',
                    createdAt = ''t1''\<rparr>], nextId = 2\<rparr>))
        [GetEvents, PostEvents [(''tagId'', JStr ''A'')] ''t'', GetStats, GetEvents, GetStats],
      \<lparr>events = [\<lparr>id_ev = 1, tagId = JStr ''A'', source = JStr ''gate'', type = JStr ''alert'',
                    createdAt = ''t1''\<rparr>], nextId = 2\<rparr>)"
proof -
  let ?reqs = "[GetEvents, PostEvents [(''tagId'', JStr ''A'')] ''t'', GetStats, GetEvents, GetStats]"
  have h: "\<forall>r \<in> set ?reqs. \<not> valid_post r"
    by (simp add: valid_body_def get_field_def)
  from reads_idempotent [of example_runtime "\<lparr>events = [\<lparr>id_ev = 1, tagId = JStr ''A'',
      source = JStr ''gate'', type = JStr ''alert'', createdAt = ''t1''\<rparr>], nextId = 2\<rparr>" 0 ?reqs] h
  have "run example_runtime ?reqs \<lparr>events = [\<lparr>id_ev = 1, tagId = JStr ''A'', source = JStr ''gate'',
      type = JStr ''alert'', createdAt = ''t1''\<rparr>], nextId = 2\<rparr> =
     (map (\<lambda>r. fst (handle example_runtime r \<lparr>events = [\<lparr>id_ev = 1, tagId = JStr ''A'',
      source = JStr ''gate'', type = JStr ''alert'', createdAt = ''t1''\<rparr>], nextId = 2\<rparr>)) ?reqs,
      \<lparr>events = [\<lparr>id_ev = 1, tagId = JStr ''A'', source = JStr ''gate'',
      type = JStr ''alert'', createdAt = ''t1''\<rparr>], nextId = 2\<rparr>)" by blast
  with h show ?thesis by simp
qed

text \<open>
  C7, as the code has it. A request that is not a creation with valid fields leaves the
  store as it is. A creation with valid fields puts its event in front and adds one to
  the counter, and changes nothing else; it is answered 201 with the event when the event
  can be written. After any sequence of requests the store holds one new event for each
  creation with valid fields, in front of the events it held before, which are unchanged
  and keep their order; without such a creation the store is the same.
\<close>

theorem store_frame:
  "(\<not> valid_post r \<longrightarrow> snd (handle rt r st) = st) \<and>
   (valid_post r \<longrightarrow>
      (\<exists>e. fst (handle rt r st) = res_json rt 201 (EventJson e) \<and>
           snd (handle rt r st) = \<lparr>events = e # events st, nextId = nextId st + 1\<rparr>)) \<and>
   (valid_post r \<and> answerable rt r \<longrightarrow>
      (\<exists>e. fst (handle rt r st) = Response 201 (EventJson (wire_event e)) \<and>
           snd (handle rt r st) = \<lparr>events = e # events st, nextId = nextId st + 1\<rparr>)) \<and>
   (\<exists>new. events (snd (run rt reqs st)) = new @ events st \<and>
          length new = length (filter valid_post reqs)) \<and>
   (\<forall>i < length (events st).
      events (snd (run rt reqs st)) ! (length (filter valid_post reqs) + i) = events st ! i) \<and>
   (filter valid_post reqs = [] \<longrightarrow> snd (run rt reqs st) = st)"
proof (intro conjI)
  show "\<not> valid_post r \<longrightarrow> snd (handle rt r st) = st"
    using handle_not_valid [of r rt st] by blast
  show "valid_post r \<longrightarrow>
      (\<exists>e. fst (handle rt r st) = res_json rt 201 (EventJson e) \<and>
           snd (handle rt r st) = \<lparr>events = e # events st, nextId = nextId st + 1\<rparr>)"
    using handle_valid [of r st rt] by blast
  show "valid_post r \<and> answerable rt r \<longrightarrow>
      (\<exists>e. fst (handle rt r st) = Response 201 (EventJson (wire_event e)) \<and>
           snd (handle rt r st) = \<lparr>events = e # events st, nextId = nextId st + 1\<rparr>)"
  proof
    assume va: "valid_post r \<and> answerable rt r"
    with handle_valid [of r st rt] obtain e where
      "snd (handle rt r st) = \<lparr>events = e # events st, nextId = nextId st + 1\<rparr>"
      "fst (handle rt r st) = res_json rt 201 (EventJson e)"
      "stringifies rt (EventJson e)" by blast
    then show "\<exists>e. fst (handle rt r st) = Response 201 (EventJson (wire_event e)) \<and>
           snd (handle rt r st) = \<lparr>events = e # events st, nextId = nextId st + 1\<rparr>"
      by (auto simp: res_json_def)
  qed
  let ?st' = "snd (run rt reqs st)"
  from run_shape [of rt reqs st] obtain new where
    ev: "events ?st' = rev new @ events st" and nx: "nextId ?st' = nextId st + length new"
    and len: "length new = length (filter valid_post reqs)"
    by blast
  from ev len show "\<exists>new. events ?st' = new @ events st \<and>
          length new = length (filter valid_post reqs)"
    by (intro exI [of _ "rev new"]) simp
  show "\<forall>i < length (events st).
      events ?st' ! (length (filter valid_post reqs) + i) = events st ! i"
    using len by (simp add: ev nth_append)
  show "filter valid_post reqs = [] \<longrightarrow> ?st' = st"
  proof
    assume "filter valid_post reqs = []"
    with len have "new = []" by simp
    with ev nx have "events ?st' = events st" "nextId ?st' = nextId st" by simp_all
    then show "?st' = st" by simp
  qed
qed

text \<open>An accepted creation, a rejected one and a read: the old event is still at the back.\<close>

theorem store_frame_witness:
  "valid_post (PostEvents [(''tagId'', JStr ''B''), (''source'', JStr ''gate''), (''type'', JStr ''status'')] ''t2'') \<and>
   answerable example_runtime
     (PostEvents [(''tagId'', JStr ''B''), (''source'', JStr ''gate''), (''type'', JStr ''status'')] ''t2'') \<and>
   \<not> valid_post (PostEvents [(''tagId'', JStr ''B'')] ''t3'') \<and>
   handle example_runtime
     (PostEvents [(''tagId'', JStr ''B''), (''source'', JStr ''gate''), (''type'', JStr ''status'')] ''t2'')
     \<lparr>events = [\<lparr>id_ev = 1, tagId = JStr ''A'', source = JStr ''gate'', type = JStr ''alert'',
                  createdAt = ''t1''\<rparr>], nextId = 2\<rparr> =
     (Response 201 (EventJson \<lparr>id_ev = 2, tagId = JStr ''B'', source = JStr ''gate'',
        type = JStr ''status'', createdAt = ''t2''\<rparr>),
      \<lparr>events = [\<lparr>id_ev = 2, tagId = JStr ''B'', source = JStr ''gate'', type = JStr ''status'',
                  createdAt = ''t2''\<rparr>,
                 \<lparr>id_ev = 1, tagId = JStr ''A'', source = JStr ''gate'', type = JStr ''alert'',
                  createdAt = ''t1''\<rparr>], nextId = 3\<rparr>) \<and>
   events (snd (run example_runtime
     [PostEvents [(''tagId'', JStr ''B''), (''source'', JStr ''gate''), (''type'', JStr ''status'')] ''t2'',
      PostEvents [(''tagId'', JStr ''B'')] ''t3'', GetEvents]
     \<lparr>events = [\<lparr>id_ev = 1, tagId = JStr ''A'', source = JStr ''gate'', type = JStr ''alert'',
                  createdAt = ''t1''\<rparr>], nextId = 2\<rparr>)) ! 1 =
     \<lparr>id_ev = 1, tagId = JStr ''A'', source = JStr ''gate'', type = JStr ''alert'', createdAt = ''t1''\<rparr>"
  using store_frame [of
     "PostEvents [(''tagId'', JStr ''B''), (''source'', JStr ''gate''), (''type'', JStr ''status'')] ''t2''"
     example_runtime
     "\<lparr>events = [\<lparr>id_ev = 1, tagId = JStr ''A'', source = JStr ''gate'', type = JStr ''alert'',
                  createdAt = ''t1''\<rparr>], nextId = 2\<rparr>"
     "[PostEvents [(''tagId'', JStr ''B''), (''source'', JStr ''gate''), (''type'', JStr ''status'')] ''t2'',
       PostEvents [(''tagId'', JStr ''B'')] ''t3'', GetEvents]"]
  by (simp add: eval_defs)

text \<open>
  C7 as stated fails: a request that is not a successful creation can change the store.
  With a body whose \<^verbatim>\<open>tagId\<close> is 40000 arrays nested in one another (a text of 80 kB,
  within the 100 kB that \<^verbatim>\<open>express.json()\<close> accepts) on a runtime whose
  \<^verbatim>\<open>JSON.stringify\<close> enters 10000 levels,
  the creation is answered 500, and the store has a new event and a new counter.
\<close>

theorem store_changed_by_unanswered_create:
  "handle example_runtime
     (PostEvents [(''tagId'', nested 40000), (''source'', JStr ''gate''), (''type'', JStr ''alert'')] ''t2'')
     \<lparr>events = [\<lparr>id_ev = 1, tagId = JStr ''A'', source = JStr ''gate'', type = JStr ''alert'',
                  createdAt = ''t1''\<rparr>], nextId = 2\<rparr> =
     (Response 500 ErrorPage,
      \<lparr>events = [\<lparr>id_ev = 2, tagId = nested 40000, source = JStr ''gate'', type = JStr ''alert'',
                  createdAt = ''t2''\<rparr>,
                 \<lparr>id_ev = 1, tagId = JStr ''A'', source = JStr ''gate'', type = JStr ''alert'',
                  createdAt = ''t1''\<rparr>], nextId = 3\<rparr>)"
  by (simp add: eval_defs)

section \<open>What the statistics count\<close>

text \<open>
  When no key names a property of \<^verbatim>\<open>Object.prototype\<close>, the two tables are the
  frequency tables of the keys (the \<^verbatim>\<open>type\<close> and \<^verbatim>\<open>source\<close> fields as property
  keys), and the stats handler answers 200 with them.
\<close>

lemma bump_plain_key:
  assumes "\<not> reserved_key k"
  shows "bump (spec_frequency_table ks) k = spec_frequency_table (k # ks)"
proof (rule ext)
  fix k'
  from assms have k: "k \<noteq> ''__proto__''" "map_of object_prototype_functions k = None"
    by (simp_all add: reserved_key_def)
  show "bump (spec_frequency_table ks) k k' = spec_frequency_table (k # ks) k'"
  proof (cases "k \<in> set ks")
    case True
    then have "count_list ks k \<noteq> 0" by (simp add: count_list_0_iff)
    with True k show ?thesis
      by (simp add: bump_def Set_prop_def Get_def spec_frequency_table_def)
  next
    case False
    then have "count_list ks k = 0" by (simp add: count_list_0_iff)
    with False k show ?thesis
      by (simp add: bump_def Set_prop_def Get_def spec_frequency_table_def)
  qed
qed

lemma spec_frequency_table_rev_append:
  "spec_frequency_table (rev xs @ []) = spec_frequency_table xs"
  by (rule ext) (simp add: spec_frequency_table_def)

lemma count_events_plain_keys:
  assumes "map (\<lambda>e. ToPropertyKey rt (type e)) es = map Inr kts"
    and "map (\<lambda>e. ToPropertyKey rt (source e)) es = map Inr kss"
    and "\<forall>k \<in> set kts \<union> set kss. \<not> reserved_key k"
  shows "count_events rt es (spec_frequency_table a, spec_frequency_table b) =
           Inr (spec_frequency_table (rev kts @ a), spec_frequency_table (rev kss @ b))"
  using assms
proof (induction es arbitrary: kts kss a b)
  case Nil
  then show ?case by simp
next
  case (Cons e es)
  from Cons.prems(1) obtain kt kts' where kts: "kts = kt # kts'"
    "ToPropertyKey rt (type e) = Inr kt" "map (\<lambda>e. ToPropertyKey rt (type e)) es = map Inr kts'"
    by (cases kts) auto
  from Cons.prems(2) obtain ks kss' where kss: "kss = ks # kss'"
    "ToPropertyKey rt (source e) = Inr ks" "map (\<lambda>e. ToPropertyKey rt (source e)) es = map Inr kss'"
    by (cases kss) auto
  from Cons.prems(3) kts(1) kss(1) have plain: "\<not> reserved_key kt" "\<not> reserved_key ks"
    and rest: "\<forall>k \<in> set kts' \<union> set kss'. \<not> reserved_key k" by simp_all
  from Cons.IH [OF kts(3) kss(3) rest, of "kt # a" "ks # b"] kts(1,2) kss(1,2) plain
  show ?case by (simp add: bump_plain_key)
qed

lemma stats_plain_keys:
  assumes "map (\<lambda>e. ToPropertyKey rt (type e)) (events st) = map Inr kts"
    and "map (\<lambda>e. ToPropertyKey rt (source e)) (events st) = map Inr kss"
    and "\<forall>k \<in> set kts \<union> set kss. \<not> reserved_key k"
  shows "get_stats rt st =
           (Response 200 (StatsJson \<lparr>totalEvents = length (events st),
              uniqueTags = Set_size (map tagId (events st)),
              eventsByType = spec_frequency_table kts,
              eventsBySource = spec_frequency_table kss\<rparr>), st)"
proof -
  have empty: "Map.empty = spec_frequency_table []"
    by (rule ext) (simp add: spec_frequency_table_def)
  from count_events_plain_keys [OF assms, of "[]" "[]"]
  have "count_events rt (events st) (Map.empty, Map.empty) =
          Inr (spec_frequency_table kts, spec_frequency_table kss)"
    by (simp only: empty spec_frequency_table_rev_append)
  then show ?thesis by (simp add: get_stats_def res_json_def)
qed

text \<open>
  A \<^verbatim>\<open>type\<close> of arrays nested beyond the reach of \<^verbatim>\<open>join\<close>: the stats handler
  answers 500.
\<close>

lemma ToString_nested:
  "ToString rt d (nested n) = (if n < d then Inr [] else Inl RangeError)"
proof (induction n arbitrary: d)
  case 0
  show ?case by (cases d) simp_all
next
  case (Suc n)
  show ?case
  proof (cases d)
    case 0
    then show ?thesis by simp
  next
    case (Suc d')
    have "nested n \<noteq> JNull" "nested n \<noteq> JUndefined" by (cases n; simp)+
    with Suc show ?thesis by (simp add: Suc.IH)
  qed
qed

lemma stats_deep_key:
  assumes "joinDepth rt < n" and "type e = nested n"
  shows "get_stats rt \<lparr>events = e # es, nextId = k\<rparr> =
           (Response 500 ErrorPage, \<lparr>events = e # es, nextId = k\<rparr>)"
  using assms by (simp add: get_stats_def ToPropertyKey_def ToString_nested)

text \<open>
  The size of the set of tags: the number of distinct tags when all are strings; never
  more than the number of events, and zero only for the empty store.
\<close>

lemma Set_size_strings:
  "Set_size (map JStr ts) = card (set ts)"
proof -
  have "filter (\<lambda>v. \<not> is_object v) (map JStr ts) = map JStr ts"
    by (induction ts) simp_all
  moreover have "filter is_object (map JStr ts) = []"
    by (induction ts) simp_all
  moreover have "length (remdups (map JStr ts)) = card (set ts)"
    by (simp add: length_remdups_card_conv card_image inj_on_def)
  ultimately show ?thesis by (simp add: Set_size_def)
qed

lemma Set_size_bounds:
  "Set_size vs \<le> length vs \<and> (Set_size vs = 0 \<longleftrightarrow> vs = [])"
proof -
  have le: "length (remdups (filter (\<lambda>v. \<not> is_object v) vs)) \<le> length (filter (\<lambda>v. \<not> is_object v) vs)"
    by (rule length_remdups_leq)
  have sum: "length (filter is_object vs) + length (filter (\<lambda>v. \<not> is_object v) vs) = length vs"
    by (rule sum_length_filter_compl)
  have zero: "Set_size vs = 0 \<longleftrightarrow> vs = []"
  proof
    assume "Set_size vs = 0"
    then have "filter (\<lambda>v. \<not> is_object v) vs = []" "filter is_object vs = []"
      by (simp_all add: Set_size_def)
    with sum show "vs = []" by simp
  next
    assume "vs = []" then show "Set_size vs = 0" by (simp add: Set_size_def)
  qed
  from le sum have "Set_size vs \<le> length vs"
    unfolding Set_size_def by linarith
  with zero show ?thesis by blast
qed

lemmas stats_defs = Let_def post_events_def get_field_def init_store_def get_stats_def
  Set_size_def res_json_def ToPropertyKey_def wire_event_def run_Cons

text \<open>
  The two examples of the specification: tags A, A, B give 3 events and 2 tags; types
  alert, status, alert give the table \<^verbatim>\<open>{alert: 2, status: 1}\<close>.
\<close>

lemma stats_examples:
  "fst (get_stats rt (snd (run rt
      [PostEvents [(''tagId'', JStr ''A''), (''source'', JStr ''gate''), (''type'', JStr ''alert'')] t1,
       PostEvents [(''tagId'', JStr ''A''), (''source'', JStr ''gate''), (''type'', JStr ''status'')] t2,
       PostEvents [(''tagId'', JStr ''B''), (''source'', JStr ''dock''), (''type'', JStr ''alert'')] t3]
      init_store))) =
   Response 200 (StatsJson \<lparr>totalEvents = 3, uniqueTags = 2,
     eventsByType = [''alert'' \<mapsto> Num 2, ''status'' \<mapsto> Num 1],
     eventsBySource = [''dock'' \<mapsto> Num 1, ''gate'' \<mapsto> Num 2]\<rparr>)"
proof -
  have t: "bump (bump (bump Map.empty ''alert'') ''status'') ''alert'' =
          [''alert'' \<mapsto> Num 2, ''status'' \<mapsto> Num 1]"
    by (rule ext) (simp add: bump_def Set_prop_def Get_def object_prototype_functions_def)
  have s: "bump (bump (bump Map.empty ''dock'') ''gate'') ''gate'' =
          [''dock'' \<mapsto> Num 1, ''gate'' \<mapsto> Num 2]"
    by (rule ext) (simp add: bump_def Set_prop_def Get_def object_prototype_functions_def)
  show ?thesis
    by (simp add: stats_defs t s)
qed

text \<open>
  C4. The tables are not frequency tables for every store. After one event of type
  \<^verbatim>\<open>constructor\<close> is posted to the empty store, \<^verbatim>\<open>eventsByType["constructor"]\<close>
  reads the inherited \<^verbatim>\<open>Object.prototype.constructor\<close>, which is truthy, and
  \<^verbatim>\<open>+ 1\<close> appends to its string form: the stats handler answers with the string
  \<^verbatim>\<open>function Object() { [native code] }1\<close> under \<^verbatim>\<open>constructor\<close>, where the
  frequency table has the count 1.
\<close>

theorem stats_constructor_type_miscounted:
  "run rt
     [PostEvents [(''tagId'', JStr ''A''), (''source'', JStr ''gate''), (''type'', JStr ''constructor'')] now,
      GetStats] init_store =
   ([Response 201 (EventJson \<lparr>id_ev = 1, tagId = JStr ''A'', source = JStr ''gate'',
        type = JStr ''constructor'', createdAt = now\<rparr>),
     Response 200 (StatsJson \<lparr>totalEvents = 1, uniqueTags = 1,
        eventsByType = [''constructor'' \<mapsto> Str ''function Object() { [native code] }1''],
        eventsBySource = [''gate'' \<mapsto> Num 1]\<rparr>)],
    \<lparr>events = [\<lparr>id_ev = 1, tagId = JStr ''A'', source = JStr ''gate'',
        type = JStr ''constructor'', createdAt = now\<rparr>], nextId = 2\<rparr>) \<and>
   spec_frequency_table [''constructor''] = [''constructor'' \<mapsto> Num 1]"
proof -
  have t: "bump Map.empty ''constructor'' =
          [''constructor'' \<mapsto> Str ''function Object() { [native code] }1'']"
    by (simp add: bump_def Set_prop_def Get_def object_prototype_functions_def)
  have s: "bump Map.empty ''gate'' = [''gate'' \<mapsto> Num 1]"
    by (simp add: bump_def Set_prop_def Get_def object_prototype_functions_def)
  have f: "spec_frequency_table [''constructor''] = [''constructor'' \<mapsto> Num 1]"
    by (rule ext) (simp add: spec_frequency_table_def)
  show ?thesis
    by (simp add: stats_defs t s f)
qed

text \<open>
  C10. The counts of a table do not always add up to \<^verbatim>\<open>totalEvents\<close>. After one event
  of type \<^verbatim>\<open>__proto__\<close> is posted to the empty store, the assignment to
  \<^verbatim>\<open>eventsByType["__proto__"]\<close> goes to the setter of \<^verbatim>\<open>Object.prototype\<close>, which
  ignores a string: the stats handler answers with \<^verbatim>\<open>totalEvents\<close> 1 and an empty
  table of types.
\<close>

theorem stats_proto_type_not_counted:
  "run rt
     [PostEvents [(''tagId'', JStr ''A''), (''source'', JStr ''gate''), (''type'', JStr ''__proto__'')] now,
      GetStats] init_store =
   ([Response 201 (EventJson \<lparr>id_ev = 1, tagId = JStr ''A'', source = JStr ''gate'',
        type = JStr ''__proto__'', createdAt = now\<rparr>),
     Response 200 (StatsJson \<lparr>totalEvents = 1, uniqueTags = 1,
        eventsByType = Map.empty,
        eventsBySource = [''gate'' \<mapsto> Num 1]\<rparr>)],
    \<lparr>events = [\<lparr>id_ev = 1, tagId = JStr ''A'', source = JStr ''gate'',
        type = JStr ''__proto__'', createdAt = now\<rparr>], nextId = 2\<rparr>)"
proof -
  have t: "bump Map.empty ''__proto__'' = Map.empty"
    by (simp add: bump_def Set_prop_def)
  have s: "bump Map.empty ''gate'' = [''gate'' \<mapsto> Num 1]"
    by (simp add: bump_def Set_prop_def Get_def object_prototype_functions_def)
  show ?thesis
    by (simp add: stats_defs t s)
qed

end
